theory Spec2Isabelle
  imports Complex_Main "HOL-Library.AList"
begin

section \<open>Elastic Weight Consolidation approach (src/approach/oewc.py)\<close>

text \<open>
  The embedding follows class \<open>Appr\<close> of \<open>oewc.py\<close>. Arithmetic is idealised: finite
  numbers are real numbers (no rounding, no overflow). What the code is given (parameter
  values, gradients, logits, the configured \<open>lamb\<close> and \<open>alpha\<close>) is finite. What the code
  computes for the Importance Map and for the loss need not be: dividing the accumulated
  squared gradients by a zero sample count gives nan entries without raising, which are
  stored and used like any other number. These values are of type \<open>elem\<close>, with the
  arithmetic of IEEE 754 on nan and the infinities.

  Two places remain where PyTorch would produce nan and the model stops instead, with the
  outcome \<open>NonFinite\<close>: the class-proportional weight of a model whose class counts are
  all zero, and the mean loss over no example. Every other \<open>Inl\<close> outcome is an exception
  of the Python code.
\<close>

datatype error = KeyError | IndexError | RuntimeError | ValueError | ZeroDivisionError | NonFinite

subsection \<open>Numbers that need not be finite\<close>

datatype elem = Fin real | PInf | MInf | NaN

instantiation elem :: zero
begin

definition zero_elem :: elem where
  "zero_elem = Fin 0"

instance ..

end

fun is_fin :: "elem \<Rightarrow> bool" where
  "is_fin (Fin a) = True"
| "is_fin x = False"

fun fin_value :: "elem \<Rightarrow> real" where
  "fin_value (Fin a) = a"
| "fin_value x = 0"

fun eadd :: "elem \<Rightarrow> elem \<Rightarrow> elem" where
  "eadd (Fin a) (Fin b) = Fin (a + b)"
| "eadd NaN y = NaN"
| "eadd x NaN = NaN"
| "eadd PInf MInf = NaN"
| "eadd MInf PInf = NaN"
| "eadd PInf y = PInf"
| "eadd x PInf = PInf"
| "eadd MInf y = MInf"
| "eadd x MInf = MInf"

fun emul :: "elem \<Rightarrow> elem \<Rightarrow> elem" where
  "emul (Fin a) (Fin b) = Fin (a * b)"
| "emul NaN y = NaN"
| "emul x NaN = NaN"
| "emul (Fin a) PInf = (if a = 0 then NaN else if 0 < a then PInf else MInf)"
| "emul (Fin a) MInf = (if a = 0 then NaN else if 0 < a then MInf else PInf)"
| "emul PInf (Fin b) = (if b = 0 then NaN else if 0 < b then PInf else MInf)"
| "emul MInf (Fin b) = (if b = 0 then NaN else if 0 < b then MInf else PInf)"
| "emul PInf PInf = PInf"
| "emul MInf MInf = PInf"
| "emul PInf MInf = MInf"
| "emul MInf PInf = MInf"

text \<open>Division by a finite number \<open>c\<close> that is an integer of the Python code (a sample
  count, the constant 2); as a divisor, the integer 0 is the float \<open>+0.0\<close>.\<close>

fun ediv :: "elem \<Rightarrow> real \<Rightarrow> elem" where
  "ediv (Fin a) c =
     (if c = 0 then (if a = 0 then NaN else if 0 < a then PInf else MInf) else Fin (a / c))"
| "ediv PInf c = (if 0 \<le> c then PInf else MInf)"
| "ediv MInf c = (if 0 \<le> c then MInf else PInf)"
| "ediv NaN c = NaN"

subsection \<open>Tensors\<close>

text \<open>A tensor is its shape and its elements in row-major order. The elements are real
  numbers, or of type \<open>elem\<close> where they need not be finite.\<close>

record 'a tensor =
  shape :: "nat list"
  data :: "'a list"

definition numel :: "nat list \<Rightarrow> nat" where
  "numel s = prod_list s"

definition wf_tensor :: "'a tensor \<Rightarrow> bool" where
  "wf_tensor a = (length (data a) = numel (shape a))"

text \<open>\<open>torch.zeros(p.shape)\<close>\<close>

definition zeros :: "nat list \<Rightarrow> 'a::zero tensor" where
  "zeros s = \<lparr>shape = s, data = replicate (numel s) 0\<rparr>"

text \<open>
  Broadcasting of element-wise binary operations: the shapes are aligned at their last
  dimension, the shorter one is padded with leading ones, and two dimensions are
  compatible when they are equal or one of them is 1.
\<close>

definition pad_shape :: "nat \<Rightarrow> nat list \<Rightarrow> nat list" where
  "pad_shape r s = replicate (r - length s) 1 @ s"

fun broadcast_dims :: "nat list \<Rightarrow> nat list \<Rightarrow> nat list option" where
  "broadcast_dims [] [] = Some []"
| "broadcast_dims (a # as) (b # bs) =
     (if a = b \<or> b = 1 then map_option ((#) a) (broadcast_dims as bs)
      else if a = 1 then map_option ((#) b) (broadcast_dims as bs)
      else None)"
| "broadcast_dims _ _ = None"

definition broadcast_shapes :: "nat list \<Rightarrow> nat list \<Rightarrow> nat list option" where
  "broadcast_shapes s1 s2 =
     (let r = max (length s1) (length s2)
      in broadcast_dims (pad_shape r s1) (pad_shape r s2))"

text \<open>\<open>expand s d xs\<close>: the elements of a tensor of shape \<open>s\<close> viewed at the shape \<open>d\<close>
  it broadcasts to (same rank; each dimension of \<open>s\<close> equals that of \<open>d\<close> or is 1).\<close>

fun expand :: "nat list \<Rightarrow> nat list \<Rightarrow> 'a list \<Rightarrow> 'a list" where
  "expand (s # ss) (d # ds) xs =
     (let c = numel ss
      in if s = d
         then concat (map (\<lambda>i. expand ss ds (take c (drop (i * c) xs))) [0..<s])
         else concat (replicate d (expand ss ds (take c xs))))"
| "expand _ _ xs = xs"

definition tensor_op ::
  "('a \<Rightarrow> 'b \<Rightarrow> 'c) \<Rightarrow> 'a tensor \<Rightarrow> 'b tensor \<Rightarrow> error + 'c tensor" where
  "tensor_op f a b =
     (case broadcast_shapes (shape a) (shape b) of
        None \<Rightarrow> Inl RuntimeError
      | Some s \<Rightarrow>
          Inr \<lparr>shape = s,
               data = map2 f (expand (pad_shape (length s) (shape a)) s (data a))
                             (expand (pad_shape (length s) (shape b)) s (data b))\<rparr>)"

text \<open>Subtraction of parameter values; addition and multiplication of values that need not
  be finite.\<close>

definition tensor_sub :: "real tensor \<Rightarrow> real tensor \<Rightarrow> error + real tensor" where
  "tensor_sub = tensor_op (-)"

definition tensor_add :: "elem tensor \<Rightarrow> elem tensor \<Rightarrow> error + elem tensor" where
  "tensor_add = tensor_op eadd"

definition tensor_mul :: "elem tensor \<Rightarrow> elem tensor \<Rightarrow> error + elem tensor" where
  "tensor_mul = tensor_op emul"

text \<open>In-place addition \<open>a += b\<close>: the broadcast result must have the shape of \<open>a\<close>.\<close>

definition tensor_iadd :: "elem tensor \<Rightarrow> elem tensor \<Rightarrow> error + elem tensor" where
  "tensor_iadd a b =
     (case tensor_add a b of
        Inl e \<Rightarrow> Inl e
      | Inr c \<Rightarrow> if shape c = shape a then Inr c else Inl RuntimeError)"

text \<open>Element-wise functions: \<open>x.pow(2)\<close> and the product with \<open>len(targets)\<close> on
  gradients, the product with a number and the division by an integer on values that
  need not be finite, and a finite tensor taken as such a value.\<close>

definition tensor_map :: "('a \<Rightarrow> 'b) \<Rightarrow> 'a tensor \<Rightarrow> 'b tensor" where
  "tensor_map f a = \<lparr>shape = shape a, data = map f (data a)\<rparr>"

definition tensor_pow2 :: "real tensor \<Rightarrow> real tensor" where
  "tensor_pow2 = tensor_map (\<lambda>x. x ^ 2)"

definition tensor_times :: "real tensor \<Rightarrow> real \<Rightarrow> real tensor" where
  "tensor_times a c = tensor_map (\<lambda>x. x * c) a"

definition fin_tensor :: "real tensor \<Rightarrow> elem tensor" where
  "fin_tensor = tensor_map Fin"

definition tensor_scale :: "real \<Rightarrow> elem tensor \<Rightarrow> elem tensor" where
  "tensor_scale c = tensor_map (emul (Fin c))"

definition tensor_div :: "elem tensor \<Rightarrow> real \<Rightarrow> elem tensor" where
  "tensor_div a c = tensor_map (\<lambda>x. ediv x c) a"

text \<open>\<open>torch.sum\<close>\<close>

definition tensor_sum :: "elem tensor \<Rightarrow> elem" where
  "tensor_sum a = foldr eadd (data a) (Fin 0)"

subsection \<open>Logits, concatenation of the heads, cross-entropy\<close>

text \<open>
  The output of one head is a matrix: one row of logits per example. \<open>torch.cat(outputs,
  dim=1)\<close> joins the rows of the heads; it raises on an empty list and when the heads
  disagree on the number of rows.
\<close>

type_synonym logits = "real list list"

definition cat_dim1 :: "logits list \<Rightarrow> error + logits" where
  "cat_dim1 outputs =
     (case outputs of
        [] \<Rightarrow> Inl RuntimeError
      | out # rest \<Rightarrow>
          if list_all (\<lambda>o'. length o' = length out) rest
          then Inr (map (\<lambda>i. concat (map (\<lambda>o'. o' ! i) outputs)) [0..<length out])
          else Inl RuntimeError)"

text \<open>
  \<open>torch.nn.functional.cross_entropy\<close> with its defaults: the mean, over the examples
  whose target is not the ignored index -100, of the negated log-softmax at the target.
  It raises when the numbers of rows and of targets differ, and when a target is not a
  class index; the mean over no example is nan.
\<close>

definition nll_row :: "real list \<Rightarrow> int \<Rightarrow> real" where
  "nll_row row y = ln (sum_list (map exp row)) - row ! nat y"

definition cross_entropy :: "logits \<Rightarrow> int list \<Rightarrow> error + real" where
  "cross_entropy input target =
     (if length input \<noteq> length target then Inl ValueError
      else if list_ex (\<lambda>(row, y). y \<noteq> - 100 \<and> (y < 0 \<or> int (length row) \<le> y)) (zip input target)
      then Inl IndexError
      else
        (let kept = filter (\<lambda>(row, y). y \<noteq> - 100) (zip input target)
         in if kept = [] then Inl NonFinite
            else Inr (sum_list (map (\<lambda>(row, y). nll_row row y) kept) / real (length kept))))"

subsection \<open>The model and the state of the approach\<close>

text \<open>
  A parameter of the backbone \<open>self.model.model\<close>: its value, its \<open>requires_grad\<close> flag and
  its gradient buffer \<open>p.grad\<close>.
\<close>

record param =
  pvalue :: "real tensor"
  requires_grad :: bool
  grad :: "real tensor option"

text \<open>
  The network \<open>self.model\<close>. \<open>named_parameters\<close> lists the backbone's parameters in order.
  The architecture is not part of \<open>oewc.py\<close>: \<open>forward\<close> gives the per-head logits for a
  batch of inputs under the current parameters, and \<open>loss_grad\<close> gives, for a batch and
  pseudo-labels, the gradient that backpropagation of the cross-entropy of the
  concatenated logits leaves for a named parameter (\<open>None\<close> when none reaches it).
\<close>

record 'x net =
  named_parameters :: "(string \<times> param) list"
  task_cls :: "nat list"
  task_offset :: "int list"
  training :: bool
  forward :: "(string \<times> param) list \<Rightarrow> 'x list \<Rightarrow> logits list"
  loss_grad ::
    "(string \<times> param) list \<Rightarrow> 'x list \<Rightarrow> int list \<Rightarrow> string \<Rightarrow> real tensor option"

datatype sampling = TrueLabels | MaxPred | Multinomial

text \<open>The fields of \<open>Appr\<close> that \<open>oewc.py\<close> reads and writes; \<open>exemplars_len\<close> is
  \<open>len(self.exemplars_dataset)\<close>. Dictionaries keep their insertion order.\<close>

record 'x appr =
  model :: "'x net"
  lamb :: real
  alpha :: real
  sampling_type :: sampling
  num_samples :: int
  older_params :: "(string \<times> real tensor) list"
  fisher :: "(string \<times> elem tensor) list"
  exemplars_len :: nat

subsection \<open>\<open>__init__\<close>\<close>

text \<open>Lines 29 and 31: the dictionary comprehensions over the trainable parameters.\<close>

definition snapshot_params :: "(string \<times> param) list \<Rightarrow> (string \<times> real tensor) list" where
  "snapshot_params ps = map (\<lambda>(n, p). (n, pvalue p)) (filter (\<lambda>(n, p). requires_grad p) ps)"

definition zero_fisher :: "(string \<times> param) list \<Rightarrow> (string \<times> elem tensor) list" where
  "zero_fisher ps =
     map (\<lambda>(n, p). (n, zeros (shape (pvalue p)))) (filter (\<lambda>(n, p). requires_grad p) ps)"

definition init :: "'x net \<Rightarrow> real \<Rightarrow> real \<Rightarrow> sampling \<Rightarrow> int \<Rightarrow> nat \<Rightarrow> 'x appr" where
  "init m lamb0 alpha0 fi_sampling_type fi_num_samples n_exemplars =
     \<lparr>model = m, lamb = lamb0, alpha = alpha0, sampling_type = fi_sampling_type,
      num_samples = fi_num_samples,
      older_params = snapshot_params (named_parameters m),
      fisher = zero_fisher (named_parameters m),
      exemplars_len = n_exemplars\<rparr>"

subsection \<open>\<open>criterion\<close>\<close>

text \<open>
  Lines 157 to 159: the loop over the backbone's named parameters. A parameter whose name
  is not a key of \<open>self.fisher\<close> is skipped; \<open>self.older_params[n]\<close> raises when the key is
  missing, and the two element-wise operations raise when the shapes do not broadcast.
\<close>

definition penalty_term :: "elem tensor \<Rightarrow> real tensor \<Rightarrow> real tensor \<Rightarrow> error + elem" where
  "penalty_term f p old =
     (case tensor_sub p old of
        Inl e \<Rightarrow> Inl e
      | Inr d \<Rightarrow>
          (case tensor_mul f (fin_tensor (tensor_pow2 d)) of
             Inl e \<Rightarrow> Inl e
           | Inr m \<Rightarrow> Inr (ediv (tensor_sum m) 2)))"

fun reg_loop ::
  "(string \<times> elem tensor) list \<Rightarrow> (string \<times> real tensor) list \<Rightarrow> (string \<times> param) list
    \<Rightarrow> elem \<Rightarrow> error + elem" where
  "reg_loop fi old [] loss_reg = Inr loss_reg"
| "reg_loop fi old ((n, p) # ps) loss_reg =
     (case map_of fi n of
        None \<Rightarrow> reg_loop fi old ps loss_reg
      | Some f \<Rightarrow>
          (case map_of old n of
             None \<Rightarrow> Inl KeyError
           | Some old_n \<Rightarrow>
               (case penalty_term f (pvalue p) old_n of
                  Inl e \<Rightarrow> Inl e
                | Inr v \<Rightarrow> reg_loop fi old ps (eadd loss_reg v))))"

text \<open>Lines 153 to 160: \<open>loss\<close> before the classification term is added.\<close>

definition reg_loss :: "'x appr \<Rightarrow> nat \<Rightarrow> error + elem" where
  "reg_loss s t =
     (if t > 0 then
        (case reg_loop (fisher s) (older_params s) (named_parameters (model s)) (Fin 0) of
           Inl e \<Rightarrow> Inl e
         | Inr loss_reg \<Rightarrow> Inr (eadd (Fin 0) (emul (Fin (lamb s)) loss_reg)))
      else Inr (Fin 0))"

text \<open>Lines 162 to 164: the classification term.\<close>

definition class_loss :: "'x appr \<Rightarrow> nat \<Rightarrow> logits list \<Rightarrow> int list \<Rightarrow> error + real" where
  "class_loss s t outputs targets =
     (if exemplars_len s > 0 then
        (case cat_dim1 outputs of
           Inl e \<Rightarrow> Inl e
         | Inr joined \<Rightarrow> cross_entropy joined targets)
      else if t < length outputs \<and> t < length (task_offset (model s)) then
        cross_entropy (outputs ! t) (map (\<lambda>y. y - task_offset (model s) ! t) targets)
      else Inl IndexError)"

definition criterion :: "'x appr \<Rightarrow> nat \<Rightarrow> logits list \<Rightarrow> int list \<Rightarrow> error + elem" where
  "criterion s t outputs targets =
     (case reg_loss s t of
        Inl e \<Rightarrow> Inl e
      | Inr loss \<Rightarrow>
          (case class_loss s t outputs targets of
             Inl e \<Rightarrow> Inl e
           | Inr ce \<Rightarrow> Inr (eadd loss (Fin ce))))"

subsection \<open>\<open>compute_fisher_matrix_diag\<close>\<close>

text \<open>
  A data loader: its \<open>batch_size\<close>, \<open>len(trn_loader.dataset)\<close> and the batches it yields
  when iterated, each a list of inputs with the tensor of their integer labels.
\<close>

record 'x loader =
  batch_size :: nat
  dataset_len :: nat
  batches :: "('x list \<times> int list) list"

text \<open>Lines 79 and 80. Integer division by a zero batch size raises in either branch.\<close>

definition n_samples_batches :: "int \<Rightarrow> 'x loader \<Rightarrow> error + int" where
  "n_samples_batches n ld =
     (if batch_size ld = 0 then Inl ZeroDivisionError
      else Inr (if n > 0 then n div int (batch_size ld) + 1
                else int (dataset_len ld) div int (batch_size ld)))"

text \<open>\<open>itertools.islice(it, n)\<close>: the first \<open>n\<close> items. It raises unless \<open>n\<close> is an integer
  from 0 to \<open>sys.maxsize\<close>, which is \<open>2 ** 63 - 1\<close> on a 64-bit platform.\<close>

definition maxsize :: int where
  "maxsize = 2 ^ 63 - 1"

definition islice :: "'a list \<Rightarrow> int \<Rightarrow> error + 'a list" where
  "islice xs n = (if n < 0 \<or> maxsize < n then Inl ValueError else Inr (take (nat n) xs))"

text \<open>\<open>argmax(1)\<close>: for each row the index of its (first) largest logit; a row without
  classes raises.\<close>

fun argmax_from :: "nat \<Rightarrow> real \<Rightarrow> nat \<Rightarrow> real list \<Rightarrow> nat" where
  "argmax_from best v i [] = best"
| "argmax_from best v i (x # xs) =
     (if v < x then argmax_from i x (Suc i) xs else argmax_from best v (Suc i) xs)"

definition argmax_row :: "real list \<Rightarrow> error + int" where
  "argmax_row row =
     (case row of [] \<Rightarrow> Inl IndexError | x # xs \<Rightarrow> Inr (int (argmax_from 0 x 1 xs)))"

fun argmax_rows :: "logits \<Rightarrow> error + int list" where
  "argmax_rows [] = Inr []"
| "argmax_rows (row # rows) =
     (case argmax_row row of
        Inl e \<Rightarrow> Inl e
      | Inr i \<Rightarrow> (case argmax_rows rows of Inl e \<Rightarrow> Inl e | Inr is \<Rightarrow> Inr (i # is)))"

definition softmax :: "real list \<Rightarrow> real list" where
  "softmax row = map (\<lambda>x. exp x / sum_list (map exp row)) row"

text \<open>
  The random draws of \<open>torch.multinomial\<close> are read from a tape: an infinite sequence of
  category indices, of which every draw consumes the next one. \<open>torch.multinomial(probs,
  k)\<close> draws \<open>k\<close> categories for every row of \<open>probs\<close> and returns them as a matrix with
  one row of \<open>k\<close> draws per row of \<open>probs\<close>. It draws without replacement, so it raises
  when \<open>k\<close> is zero or exceeds the number of categories.
\<close>

type_synonym tape = "nat \<Rightarrow> nat"

definition multinomial :: "tape \<Rightarrow> real list list \<Rightarrow> nat \<Rightarrow> error + (int list list \<times> tape)" where
  "multinomial g probs k =
     (if k = 0 \<or> list_ex (\<lambda>row. length row < k) probs then Inl RuntimeError
      else Inr (map (\<lambda>i. map (\<lambda>j. int (g (i * k + j))) [0..<k]) [0..<length probs],
                (\<lambda>i. g (i + length probs * k))))"

text \<open>Lines 86 to 95: the pseudo-labels \<open>preds\<close>.\<close>

definition fisher_preds ::
  "sampling \<Rightarrow> tape \<Rightarrow> logits list \<Rightarrow> int list \<Rightarrow> error + (int list \<times> tape)" where
  "fisher_preds st g outputs targets =
     (case st of
        TrueLabels \<Rightarrow> Inr (targets, g)
      | MaxPred \<Rightarrow>
          (case cat_dim1 outputs of
             Inl e \<Rightarrow> Inl e
           | Inr joined \<Rightarrow>
               (case argmax_rows joined of Inl e \<Rightarrow> Inl e | Inr preds \<Rightarrow> Inr (preds, g)))
      | Multinomial \<Rightarrow>
          (case cat_dim1 outputs of
             Inl e \<Rightarrow> Inl e
           | Inr joined \<Rightarrow>
               (case multinomial g (map softmax joined) (length targets) of
                  Inl e \<Rightarrow> Inl e
                | Inr (draws, g') \<Rightarrow> Inr (concat draws, g'))))"

text \<open>
  \<open>self.optimizer.zero_grad()\<close> clears the gradient buffers (both branches of
  \<open>_get_optimizer\<close> hand all parameters of the backbone to the optimizer);
  \<open>loss.backward()\<close> then leaves, in the buffer of every parameter that requires a
  gradient and is reached, the gradient of the loss. Neither touches a parameter's value.
\<close>

definition zero_grad :: "(string \<times> param) list \<Rightarrow> (string \<times> param) list" where
  "zero_grad ps = map (\<lambda>(n, p). (n, p\<lparr>grad := None\<rparr>)) ps"

definition accumulate_grad :: "real tensor option \<Rightarrow> real tensor \<Rightarrow> real tensor" where
  "accumulate_grad old g =
     (case old of None \<Rightarrow> g | Some g0 \<Rightarrow> g0\<lparr>data := map2 (+) (data g0) (data g)\<rparr>)"

definition backward ::
  "'x net \<Rightarrow> (string \<times> param) list \<Rightarrow> 'x list \<Rightarrow> int list \<Rightarrow> (string \<times> param) list" where
  "backward m ps images preds =
     map (\<lambda>(n, p).
            (n, if requires_grad p
                then (case loss_grad m ps images preds n of
                        None \<Rightarrow> p
                      | Some g \<Rightarrow> p\<lparr>grad := Some (accumulate_grad (grad p) g)\<rparr>)
                else p)) ps"

text \<open>Lines 101 to 103: \<open>fisher[n] += p.grad.pow(2) * len(targets)\<close> for every named
  parameter with a gradient.\<close>

fun accumulate ::
  "(string \<times> param) list \<Rightarrow> nat \<Rightarrow> (string \<times> elem tensor) list
    \<Rightarrow> error + (string \<times> elem tensor) list" where
  "accumulate [] k fi = Inr fi"
| "accumulate ((n, p) # ps) k fi =
     (case grad p of
        None \<Rightarrow> accumulate ps k fi
      | Some g \<Rightarrow>
          (case map_of fi n of
             None \<Rightarrow> Inl KeyError
           | Some f \<Rightarrow>
               (case tensor_iadd f (fin_tensor (tensor_times (tensor_pow2 g) (real k))) of
                  Inl e \<Rightarrow> Inl e
                | Inr f' \<Rightarrow> accumulate ps k (AList.update n f' fi))))"

text \<open>Lines 84 to 103: the body of the loop over the batches. The state of the loop is
  the local dictionary \<open>fisher\<close>, the network and the tape of random draws.\<close>

definition fisher_step ::
  "sampling \<Rightarrow> 'x list \<times> int list \<Rightarrow> (string \<times> elem tensor) list \<times> 'x net \<times> tape
    \<Rightarrow> error + ((string \<times> elem tensor) list \<times> 'x net \<times> tape)" where
  "fisher_step st batch state =
     (case batch of (images, targets) \<Rightarrow>
      case state of (fi, m, g) \<Rightarrow>
        (let outputs = forward m (named_parameters m) images
         in case fisher_preds st g outputs targets of
              Inl e \<Rightarrow> Inl e
            | Inr (preds, g') \<Rightarrow>
                (case cat_dim1 outputs of
                   Inl e \<Rightarrow> Inl e
                 | Inr joined \<Rightarrow>
                     (case cross_entropy joined preds of
                        Inl e \<Rightarrow> Inl e
                      | Inr loss \<Rightarrow>
                          (let ps = backward m (zero_grad (named_parameters m)) images preds
                           in case accumulate ps (length targets) fi of
                                Inl e \<Rightarrow> Inl e
                              | Inr fi' \<Rightarrow> Inr (fi', m\<lparr>named_parameters := ps\<rparr>, g'))))))"

fun fisher_loop ::
  "sampling \<Rightarrow> ('x list \<times> int list) list \<Rightarrow> (string \<times> elem tensor) list \<times> 'x net \<times> tape
    \<Rightarrow> error + ((string \<times> elem tensor) list \<times> 'x net \<times> tape)" where
  "fisher_loop st [] state = Inr state"
| "fisher_loop st (b # bs) state =
     (case fisher_step st b state of
        Inl e \<Rightarrow> Inl e
      | Inr state' \<Rightarrow> fisher_loop st bs state')"

text \<open>The batches that the loop of line 83 iterates over.\<close>

definition consumed_batches :: "int \<Rightarrow> 'x loader \<Rightarrow> error + ('x list \<times> int list) list" where
  "consumed_batches n ld =
     (case n_samples_batches n ld of
        Inl e \<Rightarrow> Inl e
      | Inr nb \<Rightarrow> islice (batches ld) nb)"

text \<open>Lines 105 and 106. The division of every entry by the sample count does not
  raise: a zero count turns the zeros into nan.\<close>

definition fisher_mean ::
  "(string \<times> elem tensor) list \<Rightarrow> int \<Rightarrow> (string \<times> elem tensor) list" where
  "fisher_mean fi n_samples = map (\<lambda>(n, p). (n, tensor_div p (real_of_int n_samples))) fi"

definition compute_fisher_matrix_diag ::
  "'x appr \<Rightarrow> tape \<Rightarrow> 'x loader
    \<Rightarrow> error + ((string \<times> elem tensor) list \<times> 'x net \<times> tape)" where
  "compute_fisher_matrix_diag s g trn_loader =
     (let fisher0 = zero_fisher (named_parameters (model s))
      in case n_samples_batches (num_samples s) trn_loader of
           Inl e \<Rightarrow> Inl e
         | Inr nb \<Rightarrow>
             (case islice (batches trn_loader) nb of
                Inl e \<Rightarrow> Inl e
              | Inr bs \<Rightarrow>
                  (case fisher_loop (sampling_type s) bs
                          (fisher0, (model s)\<lparr>training := True\<rparr>, g) of
                     Inl e \<Rightarrow> Inl e
                   | Inr (fi, m, g') \<Rightarrow>
                       Inr (fisher_mean fi (nb * int (batch_size trn_loader)), m, g'))))"

subsection \<open>\<open>post_train_process\<close>\<close>

text \<open>
  Line 138: \<open>sum(task_cls[:t]) / sum(task_cls)\<close> over the tensor of class counts. The
  sums over an empty tensor are the integer 0, whose division raises; a zero total of a
  non-empty tensor gives nan.
\<close>

definition class_alpha :: "nat \<Rightarrow> nat list \<Rightarrow> error + real" where
  "class_alpha t cls =
     (if cls = [] then Inl ZeroDivisionError
      else if sum_list cls = 0 then Inl NonFinite
      else Inr (real (sum_list (take t cls)) / real (sum_list cls)))"

text \<open>\<open>a * old + (1 - a) * new\<close> on tensors.\<close>

definition fuse :: "real \<Rightarrow> elem tensor \<Rightarrow> elem tensor \<Rightarrow> error + elem tensor" where
  "fuse a old new = tensor_add (tensor_scale a old) (tensor_scale (1 - a) new)"

text \<open>Lines 137 to 141: the weight given to the old importance, computed from the class
  counts when the configured \<open>alpha\<close> is -1.\<close>

definition fusion_weight :: "real \<Rightarrow> nat \<Rightarrow> nat list \<Rightarrow> error + real" where
  "fusion_weight a t cls = (if a = - 1 then class_alpha t cls else Inr a)"

text \<open>Lines 135 to 141: the loop over the keys of \<open>self.fisher\<close>.\<close>

fun merge_loop ::
  "real \<Rightarrow> nat \<Rightarrow> nat list \<Rightarrow> (string \<times> elem tensor) list \<Rightarrow> string list
    \<Rightarrow> (string \<times> elem tensor) list \<Rightarrow> error + (string \<times> elem tensor) list" where
  "merge_loop a t cls cur [] fi = Inr fi"
| "merge_loop a t cls cur (n # ns) fi =
     (case fusion_weight a t cls of
        Inl e \<Rightarrow> Inl e
      | Inr al \<Rightarrow>
          (case map_of fi n of
             None \<Rightarrow> Inl KeyError
           | Some old \<Rightarrow>
               (case map_of cur n of
                  None \<Rightarrow> Inl KeyError
                | Some new \<Rightarrow>
                    (case fuse al old new of
                       Inl e \<Rightarrow> Inl e
                     | Inr v \<Rightarrow> merge_loop a t cls cur ns (AList.update n v fi)))))"

definition post_train_process ::
  "'x appr \<Rightarrow> tape \<Rightarrow> nat \<Rightarrow> 'x loader \<Rightarrow> error + ('x appr \<times> tape)" where
  "post_train_process s g t trn_loader =
     (let s1 = s\<lparr>older_params := snapshot_params (named_parameters (model s))\<rparr>
      in case compute_fisher_matrix_diag s1 g trn_loader of
           Inl e \<Rightarrow> Inl e
         | Inr (curr_fisher, m, g') \<Rightarrow>
             (case merge_loop (alpha s1) t (task_cls m) curr_fisher (map fst (fisher s1))
                     (fisher s1) of
                Inl e \<Rightarrow> Inl e
              | Inr fi \<Rightarrow> Inr (s1\<lparr>model := m, fisher := fi\<rparr>, g')))"

subsection \<open>The penalty as the specification words it\<close>

text \<open>
  The sum, over the elements of a parameter, of importance times squared drift from the
  snapshot, and its sum over all named parameters of the backbone.
\<close>

definition weighted_drift :: "real tensor \<Rightarrow> real tensor \<Rightarrow> real tensor \<Rightarrow> real" where
  "weighted_drift f p old =
     (\<Sum>i<numel (shape p). data f ! i * (data p ! i - data old ! i) ^ 2)"

text \<open>The same sums over importances that need not be finite.\<close>

definition esum :: "elem list \<Rightarrow> elem" where
  "esum xs = foldr eadd xs (Fin 0)"

definition weighted_drift_elem :: "elem tensor \<Rightarrow> real tensor \<Rightarrow> real tensor \<Rightarrow> elem" where
  "weighted_drift_elem f p old =
     esum (map (\<lambda>i. emul (data f ! i) (Fin ((data p ! i - data old ! i) ^ 2)))
             [0..<numel (shape p)])"

definition ewc_sum_elem :: "'x appr \<Rightarrow> elem" where
  "ewc_sum_elem s =
     esum (map (\<lambda>(n, p). weighted_drift_elem (the (map_of (fisher s) n)) (pvalue p)
                           (the (map_of (older_params s) n)))
             (named_parameters (model s)))"

text \<open>A tensor of finite elements, and its elements as real numbers.\<close>

definition finite_tensor :: "elem tensor \<Rightarrow> bool" where
  "finite_tensor a = list_all is_fin (data a)"

definition real_tensor :: "elem tensor \<Rightarrow> real tensor" where
  "real_tensor = tensor_map fin_value"

definition ewc_sum :: "'x appr \<Rightarrow> real" where
  "ewc_sum s =
     (\<Sum>(n, p)\<leftarrow>named_parameters (model s).
        weighted_drift (real_tensor (the (map_of (fisher s) n))) (pvalue p)
          (the (map_of (older_params s) n)))"

text \<open>
  The invariant of the data model: every named parameter of the backbone has an entry of
  its own shape in the Importance Map and in the Snapshot. And the Importance Map holding
  finite numbers for all of them.
\<close>

definition entry_matches :: "(string \<times> 'a tensor) list \<Rightarrow> string \<Rightarrow> 'b tensor \<Rightarrow> bool" where
  "entry_matches d n v =
     (case map_of d n of None \<Rightarrow> False | Some a \<Rightarrow> wf_tensor a \<and> shape a = shape v)"

definition entry_finite :: "(string \<times> elem tensor) list \<Rightarrow> string \<Rightarrow> bool" where
  "entry_finite d n = (case map_of d n of None \<Rightarrow> False | Some a \<Rightarrow> finite_tensor a)"

definition maps_aligned :: "'x appr \<Rightarrow> bool" where
  "maps_aligned s =
     list_all (\<lambda>(n, p). wf_tensor (pvalue p) \<and> entry_matches (fisher s) n (pvalue p)
                  \<and> entry_matches (older_params s) n (pvalue p))
       (named_parameters (model s))"

definition finite_importance :: "'x appr \<Rightarrow> bool" where
  "finite_importance s = list_all (\<lambda>(n, p). entry_finite (fisher s) n) (named_parameters (model s))"

subsection \<open>Notions used in the statements\<close>

text \<open>The shapes for which the two element-wise operations of line 159 raise.\<close>

definition shapes_clash :: "'a tensor \<Rightarrow> 'b tensor \<Rightarrow> 'c tensor \<Rightarrow> bool" where
  "shapes_clash f p old =
     (case broadcast_shapes (shape p) (shape old) of
        None \<Rightarrow> True
      | Some d \<Rightarrow> broadcast_shapes (shape f) d = None)"

text \<open>Some parameter of the backbone that has an entry in the Importance Map has no
  Snapshot entry, or shapes that cannot be broadcast.\<close>

definition keyed_mismatch :: "'x appr \<Rightarrow> bool" where
  "keyed_mismatch s =
     list_ex (\<lambda>(n, p).
                case map_of (fisher s) n of
                  None \<Rightarrow> False
                | Some f \<Rightarrow>
                    (case map_of (older_params s) n of
                       None \<Rightarrow> True
                     | Some old_n \<Rightarrow> shapes_clash f (pvalue p) old_n))
       (named_parameters (model s))"

text \<open>The state with another list of backbone parameters.\<close>

definition with_parameters :: "'x appr \<Rightarrow> (string \<times> param) list \<Rightarrow> 'x appr" where
  "with_parameters s ps = s\<lparr>model := (model s)\<lparr>named_parameters := ps\<rparr>\<rparr>"

text \<open>What of the backbone's parameters is not a gradient buffer: names, values and
  \<open>requires_grad\<close> flags. And their gradient buffers.\<close>

definition values_of :: "(string \<times> param) list \<Rightarrow> (string \<times> real tensor \<times> bool) list" where
  "values_of ps = map (\<lambda>(n, p). (n, pvalue p, requires_grad p)) ps"

definition buffers_of :: "(string \<times> param) list \<Rightarrow> (string \<times> real tensor option) list" where
  "buffers_of ps = map (\<lambda>(n, p). (n, grad p)) ps"

text \<open>
  The gradients of one batch alone: for every parameter that requires a gradient, what
  backpropagation of the loss of this batch leaves in an empty buffer.
\<close>

definition batch_gradients ::
  "'x net \<Rightarrow> 'x list \<Rightarrow> int list \<Rightarrow> (string \<times> real tensor option) list" where
  "batch_gradients m images preds =
     map (\<lambda>(n, p).
            (n, if requires_grad p
                then loss_grad m (map (\<lambda>(n, p). (n, p\<lparr>grad := None\<rparr>)) (named_parameters m))
                       images preds n
                else None))
       (named_parameters m)"

text \<open>Every trainable parameter has a Snapshot entry from which it has not drifted.\<close>

definition no_drift :: "'x appr \<Rightarrow> bool" where
  "no_drift s =
     list_all (\<lambda>(n, p). \<not> requires_grad p \<or>
                 (case map_of (older_params s) n of
                    None \<Rightarrow> False
                  | Some old \<Rightarrow> tensor_sub (pvalue p) old = Inr (zeros (shape (pvalue p)))))
       (named_parameters (model s))"

text \<open>A finite, non-negative number; a tensor and a Parameter Map of such numbers.\<close>

fun nonneg_elem :: "elem \<Rightarrow> bool" where
  "nonneg_elem (Fin a) = (0 \<le> a)"
| "nonneg_elem x = False"

definition nonneg_tensor :: "elem tensor \<Rightarrow> bool" where
  "nonneg_tensor a = list_all nonneg_elem (data a)"

definition nonneg_map :: "(string \<times> elem tensor) list \<Rightarrow> bool" where
  "nonneg_map d = list_all (\<lambda>(n, a). nonneg_tensor a) d"

text \<open>The number of batches that lines 79 and 80 ask for.\<close>

definition budget_batches :: "int \<Rightarrow> 'x loader \<Rightarrow> int" where
  "budget_batches n ld =
     (if 0 < n then n div int (batch_size ld) + 1
      else int (dataset_len ld) div int (batch_size ld))"

subsection \<open>Example states\<close>

text \<open>A tensor of shape \<open>(len(xs),)\<close>, as a parameter value or gradient and as an entry of
  the Importance Map.\<close>

definition vec :: "real list \<Rightarrow> real tensor" where
  "vec xs = \<lparr>shape = [length xs], data = xs\<rparr>"

definition evec :: "real list \<Rightarrow> elem tensor" where
  "evec xs = fin_tensor (vec xs)"

definition trainable :: "real tensor \<Rightarrow> param" where
  "trainable v = \<lparr>pvalue = v, requires_grad = True, grad = None\<rparr>"

definition with_grad :: "real tensor \<Rightarrow> real tensor \<Rightarrow> param" where
  "with_grad v g = \<lparr>pvalue = v, requires_grad = True, grad = Some g\<rparr>"

text \<open>
  Two tasks with 2 and 3 classes and a backbone of two parameters of shape \<open>(1,)\<close>. The
  network answers every input with zero logits and every parameter receives the gradient
  2 from any batch.
\<close>

definition ex_net :: "(string \<times> param) list \<Rightarrow> nat net" where
  "ex_net ps =
     \<lparr>named_parameters = ps, task_cls = [2, 3], task_offset = [0, 2], training = False,
      forward = (\<lambda>ps xs. [map (\<lambda>x. [0, 0]) xs, map (\<lambda>x. [0, 0, 0]) xs]),
      loss_grad = (\<lambda>ps xs preds n. Some (vec [2]))\<rparr>"

text \<open>Task 1 is being trained with \<open>lamb = 1000\<close>: both parameters have drifted by 1.0
  from the snapshot and have importance 4.0.\<close>

definition ex_drift :: "nat appr" where
  "ex_drift =
     \<lparr>model = ex_net [(''w1'', trainable (vec [1])), (''w2'', trainable (vec [3]))],
      lamb = 1000, alpha = 1 / 2, sampling_type = MaxPred, num_samples = - 1,
      older_params = [(''w1'', vec [0]), (''w2'', vec [2])],
      fisher = [(''w1'', evec [4]), (''w2'', evec [4])],
      exemplars_len = 0\<rparr>"

text \<open>The same state with five stored exemplars.\<close>

definition ex_exemplars :: "nat appr" where
  "ex_exemplars = ex_drift\<lparr>exemplars_len := 5\<rparr>"

text \<open>A backbone whose parameter \<open>w1\<close> has shape \<open>(2,)\<close> against entries of shape \<open>(1,)\<close>
  in both maps, and whose parameter \<open>w2\<close> has no entry in either map.\<close>

definition ex_mismatch :: "nat appr" where
  "ex_mismatch =
     \<lparr>model = ex_net [(''w1'', trainable (vec [1, 2])), (''w2'', trainable (vec [7]))],
      lamb = 1000, alpha = 1 / 2, sampling_type = MaxPred, num_samples = - 1,
      older_params = [(''w1'', vec [0])],
      fisher = [(''w1'', evec [4])],
      exemplars_len = 0\<rparr>"

text \<open>The state \<open>ex_drift\<close> with the Snapshot entry of \<open>w2\<close> missing.\<close>

definition ex_no_snapshot :: "nat appr" where
  "ex_no_snapshot = ex_drift\<lparr>older_params := [(''w1'', vec [0])]\<rparr>"

text \<open>A tape of random draws: 0, 1, 2, 3, 4, 0, 1, ...\<close>

definition ex_tape :: tape where
  "ex_tape = (\<lambda>i. i mod 5)"

text \<open>A loader over a dataset of one example, in one batch.\<close>

definition ex_loader :: "nat loader" where
  "ex_loader = \<lparr>batch_size = 1, dataset_len = 1, batches = [([7], [0])]\<rparr>"

text \<open>The state \<open>ex_drift\<close> with importances 10 and 0 and a given \<open>alpha\<close>, and the state
  that post-task processing over \<open>ex_loader\<close> leaves, with its importances.\<close>

definition ex_fuse :: "real \<Rightarrow> nat appr" where
  "ex_fuse a = ex_drift\<lparr>alpha := a, fisher := [(''w1'', evec [10]), (''w2'', evec [0])]\<rparr>"

definition ex_net_after :: "nat net" where
  "ex_net_after =
     (ex_net [(''w1'', with_grad (vec [1]) (vec [2])), (''w2'', with_grad (vec [3]) (vec [2]))])
       \<lparr>training := True\<rparr>"

definition ex_fuse_after :: "real \<Rightarrow> real \<Rightarrow> real \<Rightarrow> nat appr" where
  "ex_fuse_after a x y =
     (ex_fuse a)\<lparr>model := ex_net_after,
                  older_params := [(''w1'', vec [1]), (''w2'', vec [3])],
                  fisher := [(''w1'', evec [x]), (''w2'', evec [y])]\<rparr>"

text \<open>Three tasks with 2, 3 and 5 classes, in class-proportional mode (\<open>alpha = -1\<close>).\<close>

definition ex_net3 :: "(string \<times> param) list \<Rightarrow> nat net" where
  "ex_net3 ps =
     (ex_net ps)\<lparr>task_cls := [2, 3, 5], task_offset := [0, 2, 5],
       forward := (\<lambda>ps xs. [map (\<lambda>x. [0, 0]) xs, map (\<lambda>x. [0, 0, 0]) xs,
                               map (\<lambda>x. [0, 0, 0, 0, 0]) xs])\<rparr>"

definition ex_prop :: "nat appr" where
  "ex_prop =
     (ex_fuse (- 1))\<lparr>model := ex_net3 [(''w1'', trainable (vec [1])), (''w2'', trainable (vec [3]))]\<rparr>"

definition ex_prop_after :: "nat appr" where
  "ex_prop_after =
     ex_prop\<lparr>model := (ex_net3 [(''w1'', with_grad (vec [1]) (vec [2])),
                                 (''w2'', with_grad (vec [3]) (vec [2]))])\<lparr>training := True\<rparr>,
             older_params := [(''w1'', vec [1]), (''w2'', vec [3])],
             fisher := [(''w1'', evec [7]), (''w2'', evec [2])]\<rparr>"

text \<open>The state after construction with the default \<open>alpha = 0.5\<close>.\<close>

definition ex_init :: "nat appr" where
  "ex_init =
     init (ex_net [(''w1'', trainable (vec [1])), (''w2'', trainable (vec [3]))])
       1000 (1 / 2) MaxPred (- 1) 0"

text \<open>A loader with batch size 2 over a dataset of three examples: it yields two
  batches, the second one partial.\<close>

definition ex_loader3 :: "nat loader" where
  "ex_loader3 = \<lparr>batch_size = 2, dataset_len = 3, batches = [([0, 1], [0, 1]), ([2], [0])]\<rparr>"

text \<open>A loader with batch size 2 over a dataset of ten examples.\<close>

definition ex_loader10 :: "nat loader" where
  "ex_loader10 =
     \<lparr>batch_size = 2, dataset_len = 10,
      batches = [([0, 1], [0, 1]), ([2, 3], [0, 1]), ([4, 5], [0, 1]), ([6, 7], [0, 1]),
                 ([8, 9], [0, 1])]\<rparr>"

text \<open>A loader with batch size 2 over a dataset of a single example: it yields one
  batch, which is partial.\<close>

definition ex_loader1 :: "nat loader" where
  "ex_loader1 = \<lparr>batch_size = 2, dataset_len = 1, batches = [([0], [0])]\<rparr>"

text \<open>The freshly constructed state with a given sample budget.\<close>

definition ex_budget :: "int \<Rightarrow> nat appr" where
  "ex_budget n = ex_init\<lparr>num_samples := n\<rparr>"

text \<open>The network of the examples with gradients of an earlier backward pass left in
  its buffers.\<close>

definition ex_net_stale :: "nat net" where
  "ex_net_stale =
     ex_net [(''w1'', with_grad (vec [1]) (vec [5])), (''w2'', with_grad (vec [3]) (vec [5]))]"

text \<open>The freshly constructed state with the \<open>multinomial\<close> sampling policy, and a
  loader that yields one batch of two examples.\<close>

definition ex_multi :: "nat appr" where
  "ex_multi = ex_init\<lparr>sampling_type := Multinomial\<rparr>"

definition ex_loader2 :: "nat loader" where
  "ex_loader2 = \<lparr>batch_size = 2, dataset_len = 2, batches = [([0, 1], [0, 1])]\<rparr>"

section \<open>Properties\<close>

subsection \<open>Tensor operations on equal shapes\<close>

lemma concat_chunks:
  "concat (map (\<lambda>i. take c (drop (i * c) xs)) [0..<n]) = take (n * c) xs"
proof (induction n)
  case 0
  then show ?case by simp
next
  case (Suc n)
  have "take (n * c + c) xs = take (n * c) xs @ take c (drop (n * c) xs)"
    by (rule take_add)
  with Suc show ?case by (simp add: add.commute)
qed

lemma expand_same: "length xs = numel s \<Longrightarrow> expand s s xs = xs"
proof (induction s arbitrary: xs)
  case Nil
  then show ?case by simp
next
  case (Cons d ds)
  let ?c = "numel ds"
  have len: "length xs = d * ?c" using Cons.prems by (simp add: numel_def)
  have chunk: "expand ds ds (take ?c (drop (i * ?c) xs)) = take ?c (drop (i * ?c) xs)"
    if "i < d" for i
  proof (rule Cons.IH)
    have "(i + 1) * ?c \<le> d * ?c" using that by (intro mult_le_mono1) simp
    then have "?c \<le> d * ?c - i * ?c" by (simp add: algebra_simps)
    then show "length (take ?c (drop (i * ?c) xs)) = numel ds" using len by simp
  qed
  have "expand (d # ds) (d # ds) xs
      = concat (map (\<lambda>i. expand ds ds (take ?c (drop (i * ?c) xs))) [0..<d])"
    by (simp add: Let_def)
  also have "\<dots> = concat (map (\<lambda>i. take ?c (drop (i * ?c) xs)) [0..<d])"
  proof -
    have "map (\<lambda>i. expand ds ds (take ?c (drop (i * ?c) xs))) [0..<d]
        = map (\<lambda>i. take ?c (drop (i * ?c) xs)) [0..<d]"
      by (rule map_cong) (simp_all add: chunk)
    then show ?thesis by (simp only:)
  qed
  also have "\<dots> = take (d * ?c) xs" by (rule concat_chunks)
  also have "\<dots> = xs" using len by simp
  finally show ?case .
qed

lemma broadcast_dims_same: "broadcast_dims s s = Some s"
  by (induction s) auto

lemma pad_shape_same: "pad_shape (length s) s = s"
  by (simp add: pad_shape_def)

lemma broadcast_shapes_same: "broadcast_shapes s s = Some s"
  by (simp add: broadcast_shapes_def pad_shape_same broadcast_dims_same)

lemma tensor_op_same:
  assumes "wf_tensor a" "wf_tensor b" "shape b = shape a"
  shows "tensor_op f a b = Inr \<lparr>shape = shape a, data = map2 f (data a) (data b)\<rparr>"
  using assms
  by (simp add: tensor_op_def broadcast_shapes_same pad_shape_same expand_same wf_tensor_def)

lemma set_expand: "set (expand s d xs) \<subseteq> set xs"
proof (induction s d xs rule: expand.induct)
  case (1 s ss d ds xs)
  show ?case
  proof (cases "s = d")
    case True
    have "set (expand ss ds (take (numel ss) (drop (i * numel ss) xs))) \<subseteq> set xs"
      if "i < s" for i
    proof -
      from that have mem: "i \<in> set [0..<s]" by simp
      have "set (expand ss ds (take (numel ss) (drop (i * numel ss) xs)))
          \<subseteq> set (take (numel ss) (drop (i * numel ss) xs))"
        by (rule "1.IH"(1)[OF refl True mem])
      also have "\<dots> \<subseteq> set (drop (i * numel ss) xs)" by (rule set_take_subset)
      also have "\<dots> \<subseteq> set xs" by (rule set_drop_subset)
      finally show ?thesis .
    qed
    note step = this
    show ?thesis
    proof
      fix x assume "x \<in> set (expand (s # ss) (d # ds) xs)"
      then obtain i where "i < s"
        and "x \<in> set (expand ss ds (take (numel ss) (drop (i * numel ss) xs)))"
        using True by (auto simp: Let_def)
      then show "x \<in> set xs" using step by blast
    qed
  next
    case False
    have "set (expand ss ds (take (numel ss) xs)) \<subseteq> set (take (numel ss) xs)"
      by (rule "1.IH"(2)[OF refl False])
    also have "\<dots> \<subseteq> set xs" by (rule set_take_subset)
    finally show ?thesis using False by (auto simp: Let_def split: if_splits)
  qed
qed simp_all



subsection \<open>Arithmetic on numbers that need not be finite\<close>

lemma eadd_zero_left: "eadd (Fin 0) x = x"
  by (cases x) simp_all

lemma eadd_zero_right: "eadd x (Fin 0) = x"
  by (cases x) simp_all



lemma is_fin_conv: "is_fin x \<longleftrightarrow> x = Fin (fin_value x)"
  by (cases x) simp_all

lemma finite_data: "finite_tensor a \<Longrightarrow> data a = map Fin (map fin_value (data a))"
  unfolding finite_tensor_def list_all_iff
  by (rule nth_equalityI) (auto simp: is_fin_conv[symmetric])

lemma foldr_eadd_Fin: "foldr eadd (map Fin xs) (Fin 0) = Fin (sum_list xs)"
  by (induction xs) simp_all

lemma tensor_map_simps: "shape (tensor_map f a) = shape a" "data (tensor_map f a) = map f (data a)"
  by (simp_all add: tensor_map_def)

lemma wf_tensor_map: "wf_tensor (tensor_map f a) = wf_tensor a"
  by (simp add: wf_tensor_def tensor_map_def)

lemma eadd_commute: "eadd x y = eadd y x"
  by (cases x; cases y) simp_all

lemma eadd_assoc: "eadd (eadd x y) z = eadd x (eadd y z)"
  by (cases x; cases y; cases z) simp_all

lemma ediv_eadd: "0 < c \<Longrightarrow> ediv (eadd x y) c = eadd (ediv x c) (ediv y c)"
  by (cases x; cases y) (simp_all add: add_divide_distrib)

lemma emul_ediv_half: "emul (Fin l) (ediv x 2) = emul (Fin (l * (1 / 2))) x"
  by (cases x) simp_all

lemma esum_Cons: "esum (x # xs) = eadd x (esum xs)"
  by (simp add: esum_def)

lemma esum_halves: "esum (map (\<lambda>x. ediv (f x) 2) xs) = ediv (esum (map f xs)) 2"
  by (induction xs) (simp_all add: esum_def ediv_eadd)


subsection \<open>The regularised loss\<close>

lemma sum_list_nth_lessThan: "sum_list xs = (\<Sum>i<length xs. xs ! i)"
  by (simp add: sum_list_sum_nth atLeast0LessThan)

lemma map2_emul_Fin: "map2 emul (map Fin xs) (map Fin ys) = map Fin (map2 (*) xs ys)"
  by (induction xs arbitrary: ys) (auto simp: zip_Cons1 split: list.splits)

lemma penalty_term_aligned:
  assumes "wf_tensor f" "wf_tensor p" "wf_tensor old"
    and "shape f = shape p" "shape old = shape p" and "finite_tensor f"
  shows "penalty_term f p old = Inr (Fin (weighted_drift (real_tensor f) p old / 2))"
proof -
  let ?n = "numel (shape p)"
  let ?rf = "map fin_value (data f)"
  have lens: "length (data f) = ?n" "length (data p) = ?n" "length (data old) = ?n"
    using assms(1-5) by (simp_all add: wf_tensor_def)
  have rf: "data f = map Fin ?rf" using assms(6) by (rule finite_data)
  have sub: "tensor_sub p old = Inr \<lparr>shape = shape p, data = map2 (-) (data p) (data old)\<rparr>"
    unfolding tensor_sub_def using assms by (intro tensor_op_same) simp_all
  let ?d = "\<lparr>shape = shape p, data = map2 (-) (data p) (data old)\<rparr>"
  let ?sq = "map (\<lambda>x. x ^ 2) (map2 (-) (data p) (data old))"
  have sq: "data (fin_tensor (tensor_pow2 ?d)) = map Fin ?sq"
    "shape (fin_tensor (tensor_pow2 ?d)) = shape p"
    by (simp_all add: fin_tensor_def tensor_pow2_def tensor_map_def)
  have wfd: "wf_tensor (fin_tensor (tensor_pow2 ?d))"
    using lens by (simp add: wf_tensor_def sq)
  have "tensor_mul f (fin_tensor (tensor_pow2 ?d))
      = Inr \<lparr>shape = shape f, data = map2 emul (data f) (data (fin_tensor (tensor_pow2 ?d)))\<rparr>"
    unfolding tensor_mul_def using assms(1,4) wfd
    by (intro tensor_op_same) (simp_all add: sq)
  also have "map2 emul (data f) (data (fin_tensor (tensor_pow2 ?d))) = map Fin (map2 (*) ?rf ?sq)"
    by (subst rf) (simp only: sq map2_emul_Fin)
  finally have mul: "tensor_mul f (fin_tensor (tensor_pow2 ?d))
      = Inr \<lparr>shape = shape f, data = map Fin (map2 (*) ?rf ?sq)\<rparr>" .
  let ?m = "map2 (*) ?rf ?sq"
  have "length ?m = ?n" using lens by simp
  then have "sum_list ?m = (\<Sum>i<?n. ?m ! i)" by (simp add: sum_list_nth_lessThan)
  also have "\<dots> = weighted_drift (real_tensor f) p old"
    unfolding weighted_drift_def using lens
    by (intro sum.cong) (simp_all add: real_tensor_def tensor_map_def)
  finally have total: "sum_list ?m = weighted_drift (real_tensor f) p old" .
  have "tensor_sum \<lparr>shape = shape f, data = map Fin ?m\<rparr> = Fin (sum_list ?m)"
    unfolding tensor_sum_def by (simp only: tensor.simps foldr_eadd_Fin)
  then have "ediv (tensor_sum \<lparr>shape = shape f, data = map Fin ?m\<rparr>) 2
      = Fin (weighted_drift (real_tensor f) p old / 2)"
    by (simp only: total) simp
  then show ?thesis
    by (simp only: penalty_term_def sub sum.case mul)
qed

lemma reg_loop_aligned:
  assumes "list_all (\<lambda>(n, p). wf_tensor (pvalue p) \<and> entry_matches fi n (pvalue p)
                  \<and> entry_finite fi n \<and> entry_matches old n (pvalue p)) ps"
  shows "reg_loop fi old ps (Fin acc)
    = Inr (Fin (acc + (\<Sum>(n, p)\<leftarrow>ps. weighted_drift (real_tensor (the (map_of fi n))) (pvalue p)
                                        (the (map_of old n))) / 2))"
  using assms
proof (induction ps arbitrary: acc)
  case Nil
  then show ?case by simp
next
  case (Cons np ps)
  obtain n p where np: "np = (n, p)" by (cases np)
  from Cons.prems np obtain f o' where
    f: "map_of fi n = Some f" "wf_tensor f" "shape f = shape (pvalue p)" "finite_tensor f" and
    o': "map_of old n = Some o'" "wf_tensor o'" "shape o' = shape (pvalue p)" and
    wfp: "wf_tensor (pvalue p)"
    by (auto simp: entry_matches_def entry_finite_def split: option.splits)
  have pt: "penalty_term f (pvalue p) o'
      = Inr (Fin (weighted_drift (real_tensor f) (pvalue p) o' / 2))"
    using f o' wfp by (intro penalty_term_aligned) simp_all
  have rest: "list_all (\<lambda>(n, p). wf_tensor (pvalue p) \<and> entry_matches fi n (pvalue p)
                  \<and> entry_finite fi n \<and> entry_matches old n (pvalue p)) ps"
    using Cons.prems by simp
  show ?case
    by (simp add: np f o' pt Cons.IH[OF rest] add_divide_distrib)
qed

lemma penalty_term_shaped:
  assumes "wf_tensor f" "wf_tensor p" "wf_tensor old"
    and "shape f = shape p" "shape old = shape p"
  shows "penalty_term f p old = Inr (ediv (weighted_drift_elem f p old) 2)"
proof -
  let ?n = "numel (shape p)"
  have lens: "length (data f) = ?n" "length (data p) = ?n" "length (data old) = ?n"
    using assms by (simp_all add: wf_tensor_def)
  have sub: "tensor_sub p old = Inr \<lparr>shape = shape p, data = map2 (-) (data p) (data old)\<rparr>"
    unfolding tensor_sub_def using assms by (intro tensor_op_same) simp_all
  let ?d = "\<lparr>shape = shape p, data = map2 (-) (data p) (data old)\<rparr>"
  let ?sq = "map (\<lambda>x. x ^ 2) (map2 (-) (data p) (data old))"
  have sq: "data (fin_tensor (tensor_pow2 ?d)) = map Fin ?sq"
    "shape (fin_tensor (tensor_pow2 ?d)) = shape p"
    by (simp_all add: fin_tensor_def tensor_pow2_def tensor_map_def)
  have wfd: "wf_tensor (fin_tensor (tensor_pow2 ?d))"
    using lens by (simp add: wf_tensor_def sq)
  let ?m = "map (\<lambda>i. emul (data f ! i) (Fin ((data p ! i - data old ! i) ^ 2))) [0..<?n]"
  have "tensor_mul f (fin_tensor (tensor_pow2 ?d))
      = Inr \<lparr>shape = shape f, data = map2 emul (data f) (data (fin_tensor (tensor_pow2 ?d)))\<rparr>"
    unfolding tensor_mul_def using assms(1,4) wfd
    by (intro tensor_op_same) (simp_all add: sq)
  also have "map2 emul (data f) (data (fin_tensor (tensor_pow2 ?d))) = ?m"
    using lens by (intro nth_equalityI) (simp_all add: sq)
  finally have mul: "tensor_mul f (fin_tensor (tensor_pow2 ?d))
      = Inr \<lparr>shape = shape f, data = ?m\<rparr>" .
  have "tensor_sum \<lparr>shape = shape f, data = ?m\<rparr> = weighted_drift_elem f p old"
    by (simp only: tensor_sum_def weighted_drift_elem_def esum_def tensor.simps)
  then have "ediv (tensor_sum \<lparr>shape = shape f, data = ?m\<rparr>) 2
      = ediv (weighted_drift_elem f p old) 2"
    by (rule arg_cong)
  then show ?thesis
    by (simp only: penalty_term_def sub sum.case mul)
qed

lemma reg_loop_shaped:
  assumes "list_all (\<lambda>(n, p). wf_tensor (pvalue p) \<and> entry_matches fi n (pvalue p)
                  \<and> entry_matches old n (pvalue p)) ps"
  shows "reg_loop fi old ps acc
    = Inr (eadd acc (esum (map (\<lambda>(n, p). ediv (weighted_drift_elem (the (map_of fi n)) (pvalue p)
                                               (the (map_of old n))) 2) ps)))"
  using assms
proof (induction ps arbitrary: acc)
  case Nil
  then show ?case by (simp add: esum_def eadd_zero_right)
next
  case (Cons np ps)
  obtain n p where np: "np = (n, p)" by (cases np)
  from Cons.prems np obtain f o' where
    f: "map_of fi n = Some f" "wf_tensor f" "shape f = shape (pvalue p)" and
    o': "map_of old n = Some o'" "wf_tensor o'" "shape o' = shape (pvalue p)" and
    wfp: "wf_tensor (pvalue p)"
    by (auto simp: entry_matches_def split: option.splits)
  have pt: "penalty_term f (pvalue p) o' = Inr (ediv (weighted_drift_elem f (pvalue p) o') 2)"
    using f o' wfp by (intro penalty_term_shaped) simp_all
  have rest: "list_all (\<lambda>(n, p). wf_tensor (pvalue p) \<and> entry_matches fi n (pvalue p)
                  \<and> entry_matches old n (pvalue p)) ps"
    using Cons.prems by simp
  show ?case
    by (simp add: np f o' pt Cons.IH[OF rest] esum_Cons eadd_assoc)
qed

lemma reg_loss_shaped:
  assumes "maps_aligned s" and "0 < t"
  shows "reg_loss s t = Inr (emul (Fin (lamb s * (1 / 2))) (ewc_sum_elem s))"
proof -
  let ?w = "\<lambda>(n, p). weighted_drift_elem (the (map_of (fisher s) n)) (pvalue p)
                        (the (map_of (older_params s) n))"
  have h: "(\<lambda>(n, p). ediv (weighted_drift_elem (the (map_of (fisher s) n)) (pvalue p)
                        (the (map_of (older_params s) n))) 2) = (\<lambda>x. ediv (?w x) 2)"
    by (simp add: fun_eq_iff split: prod.splits)
  have "reg_loop (fisher s) (older_params s) (named_parameters (model s)) (Fin 0)
      = Inr (eadd (Fin 0) (esum (map (\<lambda>x. ediv (?w x) 2) (named_parameters (model s)))))"
    using reg_loop_shaped[OF assms(1)[unfolded maps_aligned_def], of "Fin 0"]
    by (simp only: h)
  also have "\<dots> = Inr (ediv (ewc_sum_elem s) 2)"
    by (simp only: eadd_zero_left esum_halves ewc_sum_elem_def)
  finally show ?thesis
    using assms(2) by (simp add: reg_loss_def eadd_zero_left emul_ediv_half)
qed

text \<open>
  Claim C1. When every backbone parameter has its entry in the Importance Map and in the
  Snapshot, the loss of \<open>criterion\<close> for a task \<open>t > 0\<close> is the classification term plus
  \<open>lamb * (1/2)\<close> times the sum over all backbone parameters of importance times squared
  drift; for \<open>t = 0\<close> it is the classification term alone. This holds in the arithmetic
  of values that need not be finite, and over the real numbers when the importances are
  finite. In the example state (\<open>lamb = 1000\<close>, two parameters of importance 4.0 and
  drift 1.0) the penalty is 4000.
\<close>

theorem criterion_penalty:
  assumes "maps_aligned s" and "class_loss s t outputs targets = Inr ce"
  shows "criterion s t outputs targets
           = Inr (if t > 0 then eadd (Fin ce) (emul (Fin (lamb s * (1 / 2))) (ewc_sum_elem s))
                  else Fin ce)
       \<and> (finite_importance s \<longrightarrow>
            criterion s t outputs targets
              = Inr (Fin (if t > 0 then ce + lamb s * (1 / 2) * ewc_sum s else ce)))"
proof (intro conjI impI)
  show "criterion s t outputs targets
           = Inr (if t > 0 then eadd (Fin ce) (emul (Fin (lamb s * (1 / 2))) (ewc_sum_elem s))
                  else Fin ce)"
  proof (cases "t > 0")
    case True
    have "criterion s t outputs targets
        = Inr (eadd (emul (Fin (lamb s * (1 / 2))) (ewc_sum_elem s)) (Fin ce))"
      by (simp only: criterion_def reg_loss_shaped[OF assms(1) True] assms(2) sum.case)
    with True show ?thesis by (simp only: eadd_commute[of "Fin ce"] if_True)
  next
    case False
    with assms(2) show ?thesis by (simp add: criterion_def reg_loss_def)
  qed
next
  assume fin: "finite_importance s"
  have all: "list_all (\<lambda>(n, p). wf_tensor (pvalue p) \<and> entry_matches (fisher s) n (pvalue p)
                  \<and> entry_finite (fisher s) n \<and> entry_matches (older_params s) n (pvalue p))
               (named_parameters (model s))"
    using assms(1) fin
    by (auto simp: maps_aligned_def finite_importance_def list_all_iff)
  have "reg_loop (fisher s) (older_params s) (named_parameters (model s)) (Fin 0)
      = Inr (Fin (0 + ewc_sum s / 2))"
    unfolding ewc_sum_def using all by (rule reg_loop_aligned)
  with assms(2) show "criterion s t outputs targets
      = Inr (Fin (if t > 0 then ce + lamb s * (1 / 2) * ewc_sum s else ce))"
    by (cases "t > 0") (simp_all add: criterion_def reg_loss_def)
qed

lemmas tensor_defs = tensor_add_def tensor_sub_def tensor_mul_def tensor_iadd_def tensor_op_def
  broadcast_shapes_def pad_shape_def tensor_pow2_def tensor_times_def tensor_scale_def
  tensor_div_def tensor_sum_def tensor_map_def fin_tensor_def numel_def zeros_def zero_elem_def

lemmas base_defs = ex_drift_def ex_net_def trainable_def with_grad_def vec_def evec_def

lemma ex_drift_aligned: "maps_aligned ex_drift"
  by (simp add: maps_aligned_def base_defs entry_matches_def wf_tensor_def tensor_defs)

lemma ex_drift_finite: "finite_importance ex_drift"
  by (simp add: finite_importance_def base_defs entry_finite_def finite_tensor_def tensor_defs)

lemma ex_drift_sum_elem: "ewc_sum_elem ex_drift = Fin 8"
  by (simp add: ewc_sum_elem_def weighted_drift_elem_def esum_def base_defs tensor_defs)

lemma ex_drift_class_loss:
  "class_loss ex_drift 1 [[[0, 0]], [[0, 0, 0]]] [2] = Inr (ln 3)"
  by (simp add: class_loss_def ex_drift_def ex_net_def cross_entropy_def nll_row_def)

lemma ex_drift_sum: "ewc_sum ex_drift = 8"
  by (simp add: ewc_sum_def base_defs weighted_drift_def real_tensor_def tensor_defs)

theorem criterion_penalty_witness:
  "maps_aligned ex_drift
   \<and> class_loss ex_drift 1 [[[0, 0]], [[0, 0, 0]]] [2] = Inr (ln 3)
   \<and> finite_importance ex_drift
   \<and> lamb ex_drift * (1 / 2) * ewc_sum ex_drift = 4000
   \<and> emul (Fin (lamb ex_drift * (1 / 2))) (ewc_sum_elem ex_drift) = Fin 4000
   \<and> criterion ex_drift 1 [[[0, 0]], [[0, 0, 0]]] [2] = Inr (Fin (ln 3 + 4000))"
proof -
  note inst = criterion_penalty[OF ex_drift_aligned ex_drift_class_loss]
  have l: "lamb ex_drift = 1000" by (simp add: ex_drift_def)
  have a: "lamb ex_drift * (1 / 2) * ewc_sum ex_drift = 4000"
    by (simp add: l ex_drift_sum)
  have b: "emul (Fin (lamb ex_drift * (1 / 2))) (ewc_sum_elem ex_drift) = Fin 4000"
    by (simp add: l ex_drift_sum_elem)
  have c: "criterion ex_drift 1 [[[0, 0]], [[0, 0, 0]]] [2] = Inr (Fin (ln 3 + 4000))"
    using inst[THEN conjunct2] ex_drift_finite by (simp add: l ex_drift_sum)
  show ?thesis
    by (intro conjI ex_drift_aligned ex_drift_class_loss ex_drift_finite a b c)
qed

text \<open>
  Claim C5. With exemplars available the classification term of \<open>criterion\<close> is the
  cross-entropy of the concatenation of all head outputs against the raw targets;
  without exemplars it is the cross-entropy of \<open>outputs[t]\<close> against the targets minus
  the label offset of task \<open>t\<close>. Here \<open>r\<close> is the loss before the classification term
  is added.
\<close>

theorem criterion_classification:
  assumes "reg_loss s t = Inr r"
  shows "(0 < exemplars_len s \<longrightarrow> cat_dim1 outputs = Inr joined \<longrightarrow>
            criterion s t outputs targets
              = map_sum id (\<lambda>ce. eadd r (Fin ce)) (cross_entropy joined targets))
       \<and> (exemplars_len s = 0 \<longrightarrow> t < length outputs \<longrightarrow> t < length (task_offset (model s)) \<longrightarrow>
            criterion s t outputs targets
              = map_sum id (\<lambda>ce. eadd r (Fin ce))
                  (cross_entropy (outputs ! t) (map (\<lambda>y. y - task_offset (model s) ! t) targets)))"
  using assms
  by (auto simp: criterion_def class_loss_def split: sum.splits)

lemma ex_drift_reg_loss: "reg_loss ex_drift 1 = Inr (Fin 4000)"
  by (simp add: reg_loss_def base_defs penalty_term_def tensor_defs)

lemma ex_exemplars_reg_loss: "reg_loss ex_exemplars 1 = Inr (Fin 4000)"
  by (simp add: reg_loss_def ex_exemplars_def base_defs penalty_term_def tensor_defs)

lemma ex_cat: "cat_dim1 [[[0, 0]], [[0, 0, 0]]] = Inr [[0, 0, 0, 0, 0]]"
  by (simp add: cat_dim1_def)

lemma ce5: "cross_entropy [[0, 0, 0, 0, 0]] [2] = Inr (ln 5)"
  by (simp add: cross_entropy_def nll_row_def)

lemma ce3: "cross_entropy [[0, 0, 0]] [0] = Inr (ln 3)"
  by (simp add: cross_entropy_def nll_row_def)

theorem criterion_classification_witness:
  "reg_loss ex_exemplars 1 = Inr (Fin 4000) \<and> 0 < exemplars_len ex_exemplars
   \<and> cat_dim1 [[[0, 0]], [[0, 0, 0]]] = Inr [[0, 0, 0, 0, 0]]
   \<and> criterion ex_exemplars 1 [[[0, 0]], [[0, 0, 0]]] [2] = Inr (Fin (4000 + ln 5))
   \<and> reg_loss ex_drift 1 = Inr (Fin 4000) \<and> exemplars_len ex_drift = 0
   \<and> criterion ex_drift 1 [[[0, 0]], [[0, 0, 0]]] [2] = Inr (Fin (4000 + ln 3))"
proof -
  have a: "criterion ex_exemplars 1 [[[0, 0]], [[0, 0, 0]]] [2] = Inr (Fin (4000 + ln 5))"
    using criterion_classification[OF ex_exemplars_reg_loss, of "[[[0, 0]], [[0, 0, 0]]]"
        "[[0, 0, 0, 0, 0]]" "[2]"]
    by (simp add: ex_cat ce5) (simp add: ex_exemplars_def ex_drift_def)
  have b: "criterion ex_drift 1 [[[0, 0]], [[0, 0, 0]]] [2] = Inr (Fin (4000 + ln 3))"
    using criterion_classification[OF ex_drift_reg_loss, of "[[[0, 0]], [[0, 0, 0]]]"
        "[[0, 0, 0, 0, 0]]" "[2]"]
    by (simp add: ex_drift_def ex_net_def ce3)
  show ?thesis
    using a b ex_exemplars_reg_loss ex_drift_reg_loss ex_cat
    by (simp add: ex_exemplars_def ex_drift_def)
qed

subsection \<open>Mismatches between the maps and the live parameters\<close>

lemma tensor_op_shape:
  "tensor_op f a b = Inr c \<Longrightarrow> broadcast_shapes (shape a) (shape b) = Some (shape c)"
  by (auto simp: tensor_op_def split: option.splits)

lemma tensor_op_isl: "isl (tensor_op f a b) \<longleftrightarrow> broadcast_shapes (shape a) (shape b) = None"
  by (simp add: tensor_op_def split: option.splits)

lemma shape_fin_pow2: "shape (fin_tensor (tensor_pow2 d)) = shape d"
  by (simp add: fin_tensor_def tensor_pow2_def tensor_map_def)

lemma penalty_term_isl: "isl (penalty_term f p old) \<longleftrightarrow> shapes_clash f p old"
proof (cases "tensor_sub p old")
  case (Inl e)
  then have "isl (tensor_op (-) p old)" by (simp add: tensor_sub_def)
  then have "broadcast_shapes (shape p) (shape old) = None" by (simp add: tensor_op_isl)
  with Inl show ?thesis by (simp add: penalty_term_def shapes_clash_def)
next
  case (Inr d)
  then have bs: "broadcast_shapes (shape p) (shape old) = Some (shape d)"
    unfolding tensor_sub_def by (rule tensor_op_shape)
  have "isl (penalty_term f p old) \<longleftrightarrow> isl (tensor_mul f (fin_tensor (tensor_pow2 d)))"
    using Inr by (simp add: penalty_term_def split: sum.splits)
  also have "\<dots> \<longleftrightarrow> broadcast_shapes (shape f) (shape d) = None"
    by (simp add: tensor_mul_def tensor_op_isl shape_fin_pow2)
  also have "\<dots> \<longleftrightarrow> shapes_clash f p old"
    by (simp add: shapes_clash_def bs)
  finally show ?thesis .
qed

lemma reg_loop_isl:
  "isl (reg_loop fi old ps acc) \<longleftrightarrow>
     list_ex (\<lambda>(n, p).
                case map_of fi n of
                  None \<Rightarrow> False
                | Some f \<Rightarrow>
                    (case map_of old n of
                       None \<Rightarrow> True
                     | Some old_n \<Rightarrow> shapes_clash f (pvalue p) old_n)) ps"
proof (induction ps arbitrary: acc)
  case Nil
  then show ?case by simp
next
  case (Cons np ps)
  obtain n p where np: "np = (n, p)" by (cases np)
  show ?case
  proof (cases "map_of fi n")
    case None
    then show ?thesis by (simp add: np Cons.IH)
  next
    case f: (Some f)
    show ?thesis
    proof (cases "map_of old n")
      case None
      then show ?thesis by (simp add: np f)
    next
      case old_n: (Some old_n)
      show ?thesis
      proof (cases "penalty_term f (pvalue p) old_n")
        case (Inl e)
        then have "isl (penalty_term f (pvalue p) old_n)" by simp
        then have "shapes_clash f (pvalue p) old_n" by (simp add: penalty_term_isl)
        with Inl show ?thesis by (simp add: np f old_n)
      next
        case (Inr v)
        then have "\<not> isl (penalty_term f (pvalue p) old_n)" by simp
        then have "\<not> shapes_clash f (pvalue p) old_n" by (simp add: penalty_term_isl)
        with Inr show ?thesis by (simp add: np f old_n Cons.IH)
      qed
    qed
  qed
qed

lemma reg_loop_filter:
  "reg_loop fi old (filter (\<lambda>(n, p). map_of fi n \<noteq> None) ps) acc = reg_loop fi old ps acc"
  by (induction ps arbitrary: acc) (auto split: option.splits sum.splits)

lemma reg_loss_isl: "isl (reg_loss s t) \<longleftrightarrow> 0 < t \<and> keyed_mismatch s"
proof (cases "0 < t")
  case True
  have "isl (reg_loss s t)
      \<longleftrightarrow> isl (reg_loop (fisher s) (older_params s) (named_parameters (model s)) (Fin 0))"
    using True by (simp add: reg_loss_def split: sum.splits)
  then show ?thesis
    using True by (simp only: reg_loop_isl keyed_mismatch_def) simp
next
  case False
  then show ?thesis by (simp add: reg_loss_def)
qed

text \<open>
  Claim C8, as amended. \<open>criterion\<close> applies the penalty to the live backbone parameters
  that have an entry in the Importance Map and skips the others: its result is that for
  the backbone restricted to those parameters. The regularization term raises exactly
  when \<open>t > 0\<close> and such a parameter has no Snapshot entry or has a shape that cannot be
  broadcast against its Snapshot and Importance entries; shapes that differ and can be
  broadcast are combined without error. \<open>criterion\<close> raises exactly when the
  regularization term or the classification term does.
\<close>

theorem criterion_mismatch:
  "criterion s t outputs targets
     = criterion (with_parameters s
         (filter (\<lambda>(n, p). map_of (fisher s) n \<noteq> None) (named_parameters (model s))))
         t outputs targets
   \<and> (isl (reg_loss s t) \<longleftrightarrow> 0 < t \<and> keyed_mismatch s)
   \<and> (isl (criterion s t outputs targets)
        \<longleftrightarrow> 0 < t \<and> keyed_mismatch s \<or> isl (class_loss s t outputs targets))"
proof (intro conjI)
  show "criterion s t outputs targets
     = criterion (with_parameters s
         (filter (\<lambda>(n, p). map_of (fisher s) n \<noteq> None) (named_parameters (model s))))
         t outputs targets"
  proof -
    let ?s' = "with_parameters s
         (filter (\<lambda>(n, p). map_of (fisher s) n \<noteq> None) (named_parameters (model s)))"
    have r: "reg_loss ?s' t = reg_loss s t"
      by (simp add: reg_loss_def with_parameters_def reg_loop_filter del: not_None_eq
          split: sum.splits)
    have c: "class_loss ?s' t outputs targets = class_loss s t outputs targets"
      by (simp add: class_loss_def with_parameters_def)
    show ?thesis by (simp only: criterion_def r c)
  qed
  show r: "isl (reg_loss s t) \<longleftrightarrow> 0 < t \<and> keyed_mismatch s"
    by (rule reg_loss_isl)
  have "isl (criterion s t outputs targets)
      \<longleftrightarrow> isl (reg_loss s t) \<or> isl (class_loss s t outputs targets)"
    by (simp add: criterion_def split: sum.splits)
  then show "isl (criterion s t outputs targets)
        \<longleftrightarrow> 0 < t \<and> keyed_mismatch s \<or> isl (class_loss s t outputs targets)"
    by (simp only: r)
qed

lemma ex_mismatch_class_loss:
  "class_loss ex_mismatch 1 [[[0, 0]], [[0, 0, 0]]] [2] = Inr (ln 3)"
  by (simp add: class_loss_def ex_mismatch_def ex_net_def cross_entropy_def nll_row_def)

theorem criterion_mismatch_witness:
  "keyed_mismatch ex_no_snapshot
   \<and> isl (criterion ex_no_snapshot 1 [[[0, 0]], [[0, 0, 0]]] [2])
   \<and> \<not> keyed_mismatch ex_mismatch
   \<and> \<not> isl (criterion ex_mismatch 1 [[[0, 0]], [[0, 0, 0]]] [2])"
proof -
  have a: "keyed_mismatch ex_no_snapshot"
    by (simp add: keyed_mismatch_def ex_no_snapshot_def base_defs)
  have b: "\<not> keyed_mismatch ex_mismatch"
    by (simp add: keyed_mismatch_def ex_mismatch_def base_defs shapes_clash_def tensor_defs)
  have "isl (criterion ex_no_snapshot 1 [[[0, 0]], [[0, 0, 0]]] [2])"
    using criterion_mismatch[of ex_no_snapshot 1 "[[[0, 0]], [[0, 0, 0]]]" "[2]",
        THEN conjunct2, THEN conjunct2] a by simp
  moreover have "\<not> isl (criterion ex_mismatch 1 [[[0, 0]], [[0, 0, 0]]] [2])"
    using criterion_mismatch[of ex_mismatch 1 "[[[0, 0]], [[0, 0, 0]]]" "[2]",
        THEN conjunct2, THEN conjunct2] b ex_mismatch_class_loss by simp
  ultimately show ?thesis using a b by simp
qed

theorem criterion_mismatch_silent:
  "\<not> maps_aligned ex_mismatch
   \<and> criterion ex_mismatch 1 [[[0, 0]], [[0, 0, 0]]] [2] = Inr (Fin (10000 + ln 3))"
proof -
  have "\<not> maps_aligned ex_mismatch"
    by (simp add: maps_aligned_def ex_mismatch_def ex_net_def entry_matches_def)
  moreover have "reg_loss ex_mismatch 1 = Inr (Fin 10000)"
    by (simp add: reg_loss_def ex_mismatch_def base_defs penalty_term_def tensor_defs
        eval_nat_numeral)
  ultimately show ?thesis using ex_mismatch_class_loss by (simp add: criterion_def)
qed

subsection \<open>The fusion loop\<close>

lemma map_of_Some_key: "map_of al k = Some v \<Longrightarrow> k \<in> fst ` set al"
proof -
  assume "map_of al k = Some v"
  then have "(k, v) \<in> set al" by (rule map_of_SomeD)
  then have "fst (k, v) \<in> fst ` set al" by (rule imageI)
  then show ?thesis by simp
qed

lemma update_same_keys: "map_of al k = Some v \<Longrightarrow> map fst (AList.update k w al) = map fst al"
  by (simp add: update_keys map_of_Some_key)

lemma merge_loop_ConsE:
  assumes "merge_loop a t cls cur (n # ns) fi = Inr fi'"
  obtains al old new v where
    "fusion_weight a t cls = Inr al" "map_of fi n = Some old" "map_of cur n = Some new"
    "fuse al old new = Inr v" "merge_loop a t cls cur ns (AList.update n v fi) = Inr fi'"
  using assms by (auto split: sum.splits option.splits)

lemma merge_loop_keys:
  "merge_loop a t cls cur ns fi = Inr fi' \<Longrightarrow> map fst fi' = map fst fi"
proof (induction ns arbitrary: fi)
  case Nil
  then show ?case by simp
next
  case (Cons n ns)
  from Cons.prems obtain old v where
    "map_of fi n = Some old" "merge_loop a t cls cur ns (AList.update n v fi) = Inr fi'"
    by (rule merge_loop_ConsE)
  then show ?case using Cons.IH by (simp add: update_same_keys)
qed

lemma merge_loop_other:
  "merge_loop a t cls cur ns fi = Inr fi' \<Longrightarrow> n \<notin> set ns \<Longrightarrow> map_of fi' n = map_of fi n"
proof (induction ns arbitrary: fi)
  case Nil
  then show ?case by simp
next
  case (Cons m ns)
  from Cons.prems(1) obtain v where
    "merge_loop a t cls cur ns (AList.update m v fi) = Inr fi'"
    by (rule merge_loop_ConsE)
  with Cons.IH Cons.prems(2) have "map_of fi' n = map_of (AList.update m v fi) n" by simp
  with Cons.prems(2) show ?case by (simp add: update_conv')
qed

lemma merge_loop_entry:
  assumes "distinct ns" and "merge_loop a t cls cur ns fi = Inr fi'" and "n \<in> set ns"
  shows "\<exists>al old new v. fusion_weight a t cls = Inr al \<and> map_of fi n = Some old
           \<and> map_of cur n = Some new \<and> fuse al old new = Inr v \<and> map_of fi' n = Some v"
  using assms
proof (induction ns arbitrary: fi)
  case Nil
  then show ?case by simp
next
  case (Cons m ns)
  from Cons.prems(2) obtain al old new v where step:
    "fusion_weight a t cls = Inr al" "map_of fi m = Some old" "map_of cur m = Some new"
    "fuse al old new = Inr v" "merge_loop a t cls cur ns (AList.update m v fi) = Inr fi'"
    by (rule merge_loop_ConsE)
  show ?case
  proof (cases "n = m")
    case True
    with Cons.prems(1) have "n \<notin> set ns" by simp
    with step(5) have "map_of fi' n = map_of (AList.update m v fi) n"
      by (rule merge_loop_other)
    with True step show ?thesis by (simp add: update_conv')
  next
    case False
    with Cons.prems have "distinct ns" "n \<in> set ns" by simp_all
    from Cons.IH[OF this(1) step(5) this(2)] False show ?thesis
      by (simp add: update_conv')
  qed
qed

lemma map2_map_map: "map2 h (map f xs) (map g ys) = map2 (\<lambda>x y. h (f x) (g y)) xs ys"
  by (induction xs arbitrary: ys) (auto simp: zip_Cons1 split: list.splits)

lemma fuse_same_shape:
  assumes "wf_tensor old" "wf_tensor new" "shape new = shape old"
  shows "fuse a old new
    = Inr \<lparr>shape = shape old,
           data = map2 (\<lambda>x y. eadd (emul (Fin a) x) (emul (Fin (1 - a)) y))
                    (data old) (data new)\<rparr>"
proof -
  have "tensor_add (tensor_scale a old) (tensor_scale (1 - a) new)
      = Inr \<lparr>shape = shape (tensor_scale a old),
             data = map2 eadd (data (tensor_scale a old)) (data (tensor_scale (1 - a) new))\<rparr>"
    unfolding tensor_add_def using assms
    by (intro tensor_op_same) (simp_all add: wf_tensor_def tensor_scale_def tensor_map_def)
  then show ?thesis
    by (simp only: fuse_def tensor_scale_def tensor_map_simps map2_map_map)
qed




subsection \<open>Post-task processing\<close>

lemma compute_fisher_older_params:
  "compute_fisher_matrix_diag (s\<lparr>older_params := x\<rparr>) g ld = compute_fisher_matrix_diag s g ld"
  by (simp add: compute_fisher_matrix_diag_def split: sum.splits)

lemma post_train_processE:
  assumes "post_train_process s g t ld = Inr (s', g')"
  obtains cur m where
    "compute_fisher_matrix_diag s g ld = Inr (cur, m, g')"
    "merge_loop (alpha s) t (task_cls m) cur (map fst (fisher s)) (fisher s) = Inr (fisher s')"
    "s' = s\<lparr>older_params := snapshot_params (named_parameters (model s)), model := m,
            fisher := fisher s'\<rparr>"
proof (cases "compute_fisher_matrix_diag s g ld")
  case (Inl e)
  with assms show ?thesis
    by (simp add: post_train_process_def compute_fisher_older_params)
next
  case (Inr r)
  obtain cur m g1 where r: "r = (cur, m, g1)" by (cases r)
  show ?thesis
  proof (cases "merge_loop (alpha s) t (task_cls m) cur (map fst (fisher s)) (fisher s)")
    case (Inl e)
    with assms Inr r show ?thesis
      by (simp add: post_train_process_def compute_fisher_older_params)
  next
    case ml: (Inr fi)
    with assms Inr r have "g1 = g'" and
      s': "s' = s\<lparr>older_params := snapshot_params (named_parameters (model s)), model := m,
            fisher := fi\<rparr>"
      by (simp_all add: post_train_process_def compute_fisher_older_params)
    from s' have "fisher s' = fi" by simp
    with Inr r ml \<open>g1 = g'\<close> s' show ?thesis by (intro that) simp_all
  qed
qed

lemmas ex_defs = ex_fuse_def ex_fuse_after_def ex_net_after_def ex_loader_def ex_tape_def
  base_defs

lemmas fisher_defs = compute_fisher_matrix_diag_def n_samples_batches_def islice_def
  maxsize_def zero_fisher_def fisher_step_def fisher_preds_def cat_dim1_def argmax_row_def
  cross_entropy_def zero_grad_def backward_def accumulate_grad_def fisher_mean_def

lemmas post_defs = post_train_process_def snapshot_params_def fusion_weight_def fuse_def
  class_alpha_def



lemma ex_fuse_post_half:
  "post_train_process (ex_fuse (1 / 2)) ex_tape 0 ex_loader
     = Inr (ex_fuse_after (1 / 2) 7 2, ex_tape)"
  by (simp add: post_defs fisher_defs ex_defs tensor_defs)





subsection \<open>Class-proportional fusion\<close>

lemma sum_list_take_nth: "t \<le> length xs \<Longrightarrow> sum_list (take t xs) = (\<Sum>i<t. xs ! i)"
  for xs :: "nat list"
  by (simp add: sum_list_sum_nth atLeast0LessThan)

lemma sum_list_all_nth: "length xs = Suc t \<Longrightarrow> sum_list xs = (\<Sum>i\<le>t. xs ! i)"
  for xs :: "nat list"
  by (simp add: sum_list_sum_nth atLeast0LessThan lessThan_Suc_atMost)

lemma class_alpha_Inr:
  assumes "class_alpha t cls = Inr w" and "length cls = Suc t"
  shows "w = real (\<Sum>i<t. cls ! i) / real (\<Sum>i\<le>t. cls ! i)"
proof -
  from assms(1) have "w = real (sum_list (take t cls)) / real (sum_list cls)"
    by (simp add: class_alpha_def split: if_splits)
  then show ?thesis
    using assms(2) by (simp add: sum_list_take_nth sum_list_all_nth)
qed

lemmas ex3_defs = ex_prop_def ex_prop_after_def ex_net3_def ex_init_def init_def

text \<open>
  Claim C3. In class-proportional mode (\<open>alpha = -1\<close>), when the model's \<open>task_cls\<close> holds
  the class counts of the tasks \<open>0..t\<close> seen so far, the weight with which post-task
  processing of task \<open>t\<close> fuses every entry is the sum of the counts of the tasks before
  \<open>t\<close> divided by the sum of the counts of the tasks up to \<open>t\<close>.
\<close>

theorem class_proportional_weight:
  assumes "post_train_process s g t ld = Inr (s', g')"
    and "compute_fisher_matrix_diag s g ld = Inr (cur, m, g'')"
    and "alpha s = - 1" and "length (task_cls m) = Suc t"
    and "distinct (map fst (fisher s))"
    and "map_of (fisher s) n = Some old" and "map_of cur n = Some new"
  shows "fusion_weight (alpha s) t (task_cls m)
           = Inr (real (\<Sum>i<t. task_cls m ! i) / real (\<Sum>i\<le>t. task_cls m ! i))
       \<and> Inr (the (map_of (fisher s') n))
           = fuse (real (\<Sum>i<t. task_cls m ! i) / real (\<Sum>i\<le>t. task_cls m ! i)) old new"
proof -
  from assms(1) obtain cur' m' where
    cf: "compute_fisher_matrix_diag s g ld = Inr (cur', m', g')" and
    ml: "merge_loop (alpha s) t (task_cls m') cur' (map fst (fisher s)) (fisher s) = Inr (fisher s')"
    by (rule post_train_processE)
  from cf assms(2) have same: "cur' = cur" "m' = m" by simp_all
  have key: "n \<in> set (map fst (fisher s))"
    using map_of_Some_key[OF assms(6)] by simp
  from merge_loop_entry[OF assms(5) ml key] assms(6,7) same
  obtain w v where w: "fusion_weight (alpha s) t (task_cls m) = Inr w"
    and v: "fuse w old new = Inr v" "map_of (fisher s') n = Some v"
    by auto
  from w assms(3) have "class_alpha t (task_cls m) = Inr w"
    by (simp add: fusion_weight_def)
  then have "w = real (\<Sum>i<t. task_cls m ! i) / real (\<Sum>i\<le>t. task_cls m ! i)"
    using assms(4) by (rule class_alpha_Inr)
  with w v show ?thesis by simp
qed

lemma ex_prop_estimate:
  "compute_fisher_matrix_diag ex_prop ex_tape ex_loader
     = Inr ([(''w1'', evec [4]), (''w2'', evec [4])], model ex_prop_after, ex_tape)"
  by (simp add: fisher_defs ex3_defs ex_defs tensor_defs)

lemma ex_prop_post:
  "post_train_process ex_prop ex_tape 2 ex_loader = Inr (ex_prop_after, ex_tape)"
  by (simp add: post_defs fisher_defs ex3_defs ex_defs tensor_defs)

lemma ex_prop_facts:
  "alpha ex_prop = - 1" "length (task_cls (model ex_prop_after)) = Suc 2"
  "distinct (map fst (fisher ex_prop))"
  "map_of (fisher ex_prop) ''w1'' = Some (evec [10])"
  "map_of [(''w1'', evec [4]), (''w2'', evec [4])] ''w1'' = Some (evec [4])"
  "task_cls (model ex_prop_after) = [2, 3, 5]"
  by (simp_all add: ex3_defs ex_defs)

theorem class_proportional_weight_witness:
  "post_train_process ex_prop ex_tape 2 ex_loader = Inr (ex_prop_after, ex_tape)
   \<and> task_cls (model ex_prop_after) = [2, 3, 5]
   \<and> fusion_weight (alpha ex_prop) 2 (task_cls (model ex_prop_after)) = Inr (1 / 2)
   \<and> fuse (1 / 2) (evec [10]) (evec [4]) = Inr (evec [7])
   \<and> map_of (fisher ex_prop_after) ''w1'' = Some (evec [7])"
proof -
  have sums: "real (\<Sum>i<2. [2, 3, 5::nat] ! i) / real (\<Sum>i\<le>2. [2, 3, 5::nat] ! i) = 1 / 2"
    by (simp add: eval_nat_numeral lessThan_Suc atMost_Suc)
  have w: "fusion_weight (alpha ex_prop) 2 (task_cls (model ex_prop_after)) = Inr (1 / 2)"
    using class_proportional_weight[OF ex_prop_post ex_prop_estimate ex_prop_facts(1,2,3,4,5)]
    by (simp only: ex_prop_facts(6) sums)
  have f: "fuse (1 / 2) (evec [10]) (evec [4]) = Inr (evec [7])"
    by (simp add: fuse_def evec_def vec_def tensor_defs)
  have "map_of (fisher ex_prop_after) ''w1'' = Some (evec [7])"
    by (simp add: ex3_defs)
  with w f ex_prop_post ex_prop_facts(6) show ?thesis by simp
qed


subsection \<open>Lifecycle of the Importance Map and the Snapshot\<close>

lemma fuse_zeros:
  assumes "wf_tensor new"
  shows "fuse a (zeros (shape new)) new = Inr (tensor_scale (1 - a) new)"
proof -
  let ?f = "\<lambda>x y. eadd (emul (Fin a) x) (emul (Fin (1 - a)) y)"
  have wz: "wf_tensor (zeros (shape new) :: elem tensor)"
    by (simp add: wf_tensor_def zeros_def)
  have sh: "shape new = shape (zeros (shape new) :: elem tensor)"
    by (simp add: zeros_def)
  have "fuse a (zeros (shape new)) new
      = Inr \<lparr>shape = shape (zeros (shape new) :: elem tensor),
             data = map2 ?f (data (zeros (shape new))) (data new)\<rparr>"
    by (rule fuse_same_shape[OF wz assms sh])
  then have A: "fuse a (zeros (shape new)) new
      = Inr \<lparr>shape = shape new,
             data = map2 ?f (replicate (length (data new)) (Fin 0)) (data new)\<rparr>"
    using assms by (simp add: zeros_def wf_tensor_def zero_elem_def)
  have B: "map2 ?f (replicate (length ys) (Fin 0)) ys = map (emul (Fin (1 - a))) ys" for ys
    by (induction ys) (simp_all add: eadd_zero_left)
  have C: "tensor_scale (1 - a) new
      = \<lparr>shape = shape new, data = map (emul (Fin (1 - a))) (data new)\<rparr>"
    by (simp add: tensor_scale_def tensor_map_def)
  show ?thesis by (simp only: A B C)
qed

lemma zero_fisher_zeros: "list_all (\<lambda>(n, f). f = zeros (shape f)) (zero_fisher ps)"
  by (induction ps) (auto simp: zero_fisher_def zeros_def)

text \<open>
  Claim C7, as amended. The Importance Map is all zeros after construction. Post-task
  processing keeps its keys and sets every entry to the fusion \<open>w * old + (1 - w) * new\<close>
  of the old entry with the fresh estimate, at the first update as at every other; fused
  with the initial zeros a fresh estimate becomes \<open>(1 - w) * new\<close>. The Snapshot is
  overwritten with the values of the trainable parameters.
\<close>

theorem importance_lifecycle:
  "fisher (init m0 l a st k e) = zero_fisher (named_parameters m0)
   \<and> list_all (\<lambda>(n, f). f = zeros (shape f)) (fisher (init m0 l a st k e))
   \<and> (post_train_process s g t ld = Inr (s', g') \<longrightarrow>
        compute_fisher_matrix_diag s g ld = Inr (cur, m, g'') \<longrightarrow>
        distinct (map fst (fisher s)) \<longrightarrow>
          map fst (fisher s') = map fst (fisher s)
          \<and> older_params s' = snapshot_params (named_parameters (model s))
          \<and> list_all (\<lambda>n. \<exists>w old new. fusion_weight (alpha s) t (task_cls m) = Inr w
                  \<and> map_of (fisher s) n = Some old \<and> map_of cur n = Some new
                  \<and> Inr (the (map_of (fisher s') n)) = fuse w old new) (map fst (fisher s)))
   \<and> (wf_tensor new \<longrightarrow> fuse w (zeros (shape new)) new = Inr (tensor_scale (1 - w) new))"
proof (intro conjI impI)
  show "fisher (init m0 l a st k e) = zero_fisher (named_parameters m0)"
    by (simp add: init_def)
  show "list_all (\<lambda>(n, f). f = zeros (shape f)) (fisher (init m0 l a st k e))"
    by (simp add: init_def zero_fisher_zeros)
  show "fuse w (zeros (shape new)) new = Inr (tensor_scale (1 - w) new)" if "wf_tensor new"
    using that by (rule fuse_zeros)
next
  assume post: "post_train_process s g t ld = Inr (s', g')"
    and est: "compute_fisher_matrix_diag s g ld = Inr (cur, m, g'')"
    and dist: "distinct (map fst (fisher s))"
  from post obtain cur' m' where
    cf: "compute_fisher_matrix_diag s g ld = Inr (cur', m', g')" and
    ml: "merge_loop (alpha s) t (task_cls m') cur' (map fst (fisher s)) (fisher s) = Inr (fisher s')"
    and s': "s' = s\<lparr>older_params := snapshot_params (named_parameters (model s)), model := m',
            fisher := fisher s'\<rparr>"
    by (rule post_train_processE)
  from cf est have same: "cur' = cur" "m' = m" by simp_all
  show "map fst (fisher s') = map fst (fisher s)"
    using ml by (rule merge_loop_keys)
  have "older_params s'
      = older_params (s\<lparr>older_params := snapshot_params (named_parameters (model s)),
          model := m', fisher := fisher s'\<rparr>)"
    using s' by simp
  then show "older_params s' = snapshot_params (named_parameters (model s))"
    by simp
  show "list_all (\<lambda>n. \<exists>w old new. fusion_weight (alpha s) t (task_cls m) = Inr w
                  \<and> map_of (fisher s) n = Some old \<and> map_of cur n = Some new
                  \<and> Inr (the (map_of (fisher s') n)) = fuse w old new) (map fst (fisher s))"
    unfolding list_all_iff
  proof
    fix n assume "n \<in> set (map fst (fisher s))"
    from merge_loop_entry[OF dist ml this] same
    show "\<exists>w old new. fusion_weight (alpha s) t (task_cls m) = Inr w
                  \<and> map_of (fisher s) n = Some old \<and> map_of cur n = Some new
                  \<and> Inr (the (map_of (fisher s') n)) = fuse w old new"
      by auto
  qed
qed

lemma ex_init_estimate:
  "compute_fisher_matrix_diag ex_init ex_tape ex_loader
     = Inr ([(''w1'', evec [4]), (''w2'', evec [4])], ex_net_after, ex_tape)"
  by (simp add: fisher_defs ex3_defs ex_defs tensor_defs)

lemma ex_init_post:
  "post_train_process ex_init ex_tape 0 ex_loader
     = Inr (ex_init\<lparr>model := ex_net_after, fisher := [(''w1'', evec [2]), (''w2'', evec [2])]\<rparr>,
            ex_tape)"
  by (simp add: post_defs fisher_defs ex3_defs ex_defs tensor_defs)

theorem importance_lifecycle_witness:
  "fisher ex_init = [(''w1'', zeros [1]), (''w2'', zeros [1])]
   \<and> post_train_process ex_init ex_tape 0 ex_loader
     = Inr (ex_init\<lparr>model := ex_net_after, fisher := [(''w1'', evec [2]), (''w2'', evec [2])]\<rparr>,
            ex_tape)
   \<and> map fst [(''w1'', evec [2]), (''w2'', evec [2])] = map fst (fisher ex_init)
   \<and> older_params (ex_init\<lparr>model := ex_net_after,
          fisher := [(''w1'', evec [2]), (''w2'', evec [2])]\<rparr>)
       = [(''w1'', vec [1]), (''w2'', vec [3])]
   \<and> fuse (1 / 2) (zeros (shape (evec [4]))) (evec [4]) = Inr (evec [2])"
proof -
  have d: "distinct (map fst (fisher ex_init))" by (simp add: ex3_defs ex_defs zero_fisher_def)
  have wf: "wf_tensor (evec [4])"
    by (simp add: evec_def vec_def fin_tensor_def tensor_map_def wf_tensor_def numel_def)
  note inst = importance_lifecycle[of "ex_net [(''w1'', trainable (vec [1])), (''w2'', trainable (vec [3]))]"
      1000 "1 / 2" MaxPred "- 1" 0 ex_init ex_tape 0 ex_loader
      "ex_init\<lparr>model := ex_net_after, fisher := [(''w1'', evec [2]), (''w2'', evec [2])]\<rparr>"
      ex_tape "[(''w1'', evec [4]), (''w2'', evec [4])]" ex_net_after ex_tape "evec [4]" "1 / 2"]
  have a: "fisher ex_init = [(''w1'', zeros [1]), (''w2'', zeros [1])]"
    using inst by (simp add: ex3_defs ex_defs zero_fisher_def)
  have b: "map fst [(''w1'', evec [2]), (''w2'', evec [2])] = map fst (fisher ex_init)"
    using inst ex_init_post ex_init_estimate d by simp
  have c: "older_params (ex_init\<lparr>model := ex_net_after,
          fisher := [(''w1'', evec [2]), (''w2'', evec [2])]\<rparr>)
       = [(''w1'', vec [1]), (''w2'', vec [3])]"
    using inst ex_init_post ex_init_estimate d
    by (simp add: ex3_defs ex_defs snapshot_params_def)
  have e: "fuse (1 / 2) (zeros (shape (evec [4]))) (evec [4]) = Inr (evec [2])"
    using inst wf by (simp add: tensor_scale_def tensor_map_def fin_tensor_def evec_def vec_def)
  from a b c e ex_init_post show ?thesis by simp
qed

theorem first_update_is_fused:
  "map_sum id fst (compute_fisher_matrix_diag ex_init ex_tape ex_loader)
     = Inr [(''w1'', evec [4]), (''w2'', evec [4])]
   \<and> map_sum id (fisher \<circ> fst) (post_train_process ex_init ex_tape 0 ex_loader)
     = Inr [(''w1'', evec [2]), (''w2'', evec [2])]"
  by (simp add: ex_init_estimate ex_init_post)


subsection \<open>Fisher estimation leaves the parameter values alone\<close>

lemma values_of_zero_grad: "values_of (zero_grad ps) = values_of ps"
  by (induction ps) (auto simp: values_of_def zero_grad_def)

lemma values_of_backward: "values_of (backward m ps images preds) = values_of ps"
  by (auto simp: values_of_def backward_def split: option.splits if_splits)

lemma fisher_step_values:
  assumes "fisher_step st b (fi, m, g) = Inr (fi', m', g')"
  shows "values_of (named_parameters m') = values_of (named_parameters m)"
proof -
  obtain images targets where b: "b = (images, targets)" by (cases b)
  from assms obtain preds where
    "m' = m\<lparr>named_parameters := backward m (zero_grad (named_parameters m)) images preds\<rparr>"
    by (auto simp: fisher_step_def b Let_def split: sum.splits prod.splits)
  then show ?thesis
    by (simp add: values_of_backward values_of_zero_grad)
qed

lemma fisher_loop_values:
  "fisher_loop st bs (fi, m, g) = Inr (fi', m', g')
    \<Longrightarrow> values_of (named_parameters m') = values_of (named_parameters m)"
proof (induction bs arbitrary: fi m g)
  case Nil
  then show ?case by simp
next
  case (Cons b bs)
  from Cons.prems obtain fi1 m1 g1 where
    step: "fisher_step st b (fi, m, g) = Inr (fi1, m1, g1)" and
    rest: "fisher_loop st bs (fi1, m1, g1) = Inr (fi', m', g')"
    by (auto split: sum.splits)
  from Cons.IH[OF rest] fisher_step_values[OF step] show ?case by simp
qed

lemma compute_fisher_values:
  assumes "compute_fisher_matrix_diag s g ld = Inr (cur, m, g')"
  shows "values_of (named_parameters m) = values_of (named_parameters (model s))"
proof -
  from assms obtain bs fi where
    "fisher_loop (sampling_type s) bs
       (zero_fisher (named_parameters (model s)), (model s)\<lparr>training := True\<rparr>, g)
     = Inr (fi, m, g')"
    by (auto simp: compute_fisher_matrix_diag_def Let_def split: sum.splits prod.splits)
  from fisher_loop_values[OF this] show ?thesis by simp
qed

lemma fisher_stepE:
  assumes "fisher_step st (images, targets) (fi, m, g) = Inr (fi', m', g')"
  obtains preds where
    "fisher_preds st g (forward m (named_parameters m) images) targets = Inr (preds, g')"
    "m' = m\<lparr>named_parameters := backward m (zero_grad (named_parameters m)) images preds\<rparr>"
    "accumulate (named_parameters m') (length targets) fi = Inr fi'"
  using assms
  by (auto simp: fisher_step_def Let_def split: sum.splits prod.splits)

lemma buffers_of_backward:
  "buffers_of (backward m (zero_grad ps) images preds)
     = map (\<lambda>(n, p).
              (n, if requires_grad p
                  then loss_grad m (map (\<lambda>(n, p). (n, p\<lparr>grad := None\<rparr>)) ps) images preds n
                  else None)) ps"
  by (auto simp: buffers_of_def backward_def zero_grad_def accumulate_grad_def
      split: option.splits)

lemma fisher_step_frame:
  assumes "fisher_step st b (fi, m, g) = Inr (fi', m', g')"
  shows "m' = m\<lparr>named_parameters := named_parameters m'\<rparr>"
proof -
  obtain images targets where b: "b = (images, targets)" by (cases b)
  from assms obtain preds where
    "m' = m\<lparr>named_parameters := backward m (zero_grad (named_parameters m)) images preds\<rparr>"
    unfolding b by (rule fisher_stepE)
  then show ?thesis by simp
qed

lemma fisher_loop_frame:
  "fisher_loop st bs (fi, m, g) = Inr (fi', m', g')
    \<Longrightarrow> m' = m\<lparr>named_parameters := named_parameters m'\<rparr>"
proof (induction bs arbitrary: fi m g)
  case Nil
  then show ?case by simp
next
  case (Cons b bs)
  from Cons.prems obtain fi1 m1 g1 where
    step: "fisher_step st b (fi, m, g) = Inr (fi1, m1, g1)" and
    rest: "fisher_loop st bs (fi1, m1, g1) = Inr (fi', m', g')"
    by (auto split: sum.splits)
  have a: "m' = m1\<lparr>named_parameters := named_parameters m'\<rparr>" by (rule Cons.IH[OF rest])
  have b: "m1 = m\<lparr>named_parameters := named_parameters m1\<rparr>" by (rule fisher_step_frame[OF step])
  have "m1\<lparr>named_parameters := named_parameters m'\<rparr>
      = m\<lparr>named_parameters := named_parameters m1\<rparr>\<lparr>named_parameters := named_parameters m'\<rparr>"
    by (rule arg_cong[OF b])
  also have "\<dots> = m\<lparr>named_parameters := named_parameters m'\<rparr>" by simp
  finally show ?case using a by (rule trans[rotated])
qed

lemma compute_fisher_frame:
  assumes "compute_fisher_matrix_diag s g ld = Inr (cur, m, g')"
  shows "m = (model s)\<lparr>named_parameters := named_parameters m, training := True\<rparr>"
proof -
  from assms obtain bs fi where
    "fisher_loop (sampling_type s) bs
       (zero_fisher (named_parameters (model s)), (model s)\<lparr>training := True\<rparr>, g)
     = Inr (fi, m, g')"
    by (auto simp: compute_fisher_matrix_diag_def Let_def split: sum.splits prod.splits)
  from fisher_loop_frame[OF this]
  have e: "m = (model s)\<lparr>training := True\<rparr>\<lparr>named_parameters := named_parameters m\<rparr>" .
  have "(model s)\<lparr>training := True\<rparr>\<lparr>named_parameters := named_parameters m\<rparr>
      = (model s)\<lparr>named_parameters := named_parameters m, training := True\<rparr>"
    by simp
  with e show ?thesis by (rule trans)
qed

lemma snapshot_params_values:
  "snapshot_params ps = map (\<lambda>(n, v, r). (n, v)) (filter (\<lambda>(n, v, r). r) (values_of ps))"
  by (induction ps) (auto simp: snapshot_params_def values_of_def)

lemma map_fst_values_of: "map fst (values_of ps) = map fst ps"
  by (induction ps) (auto simp: values_of_def)

lemma map_of_snapshot_params:
  assumes "distinct (map fst ps)" and "(n, p) \<in> set ps" and "requires_grad p"
  shows "map_of (snapshot_params ps) n = Some (pvalue p)"
proof (rule map_of_is_SomeI)
  have "map fst (snapshot_params ps) = map fst (filter (\<lambda>(n, p). requires_grad p) ps)"
    by (simp add: snapshot_params_def comp_def split_def)
  then show "distinct (map fst (snapshot_params ps))"
    using assms(1) by (simp add: distinct_map_filter)
  show "(n, pvalue p) \<in> set (snapshot_params ps)"
    using assms(2,3) by (force simp: snapshot_params_def)
qed

lemma tensor_sub_self:
  assumes "wf_tensor a"
  shows "tensor_sub a a = Inr (zeros (shape a))"
proof -
  have "map2 (-) xs xs = replicate (length xs) 0" for xs :: "real list"
    by (induction xs) simp_all
  moreover have "tensor_sub a a = Inr \<lparr>shape = shape a, data = map2 (-) (data a) (data a)\<rparr>"
    unfolding tensor_sub_def using assms by (intro tensor_op_same) simp_all
  ultimately show ?thesis
    using assms by (simp add: zeros_def wf_tensor_def)
qed

text \<open>
  Claim C6. Post-task processing changes no parameter value: of the network it writes
  only the gradient buffers (and the training flag). Every batch of the Fisher estimation
  starts from cleared buffers, so that after its backward pass the buffers hold the
  gradients of this batch alone, whatever an earlier pass had left there, and these are
  what the batch adds to the estimate. The Snapshot is the current trainable parameters:
  when post-task processing completes, every trainable parameter minus its Snapshot entry
  is zero.
\<close>

theorem post_train_no_drift:
  assumes "post_train_process s g t ld = Inr (s', g')"
    and "distinct (map fst (named_parameters (model s)))"
    and "list_all (\<lambda>(n, p). wf_tensor (pvalue p)) (named_parameters (model s))"
  shows "values_of (named_parameters (model s')) = values_of (named_parameters (model s))
       \<and> older_params s' = snapshot_params (named_parameters (model s'))
       \<and> no_drift s'
       \<and> model s' = (model s)\<lparr>named_parameters := named_parameters (model s'), training := True\<rparr>
       \<and> (fisher_step st (images, targets) (fi, m0, g0) = Inr (fi1, m1, g1) \<longrightarrow>
            fisher_preds st g0 (forward m0 (named_parameters m0) images) targets
              = Inr (preds, g1') \<longrightarrow>
            values_of (named_parameters m1) = values_of (named_parameters m0)
            \<and> buffers_of (named_parameters m1) = batch_gradients m0 images preds
            \<and> accumulate (named_parameters m1) (length targets) fi = Inr fi1)"
proof -
  from assms(1) obtain cur m where
    cf: "compute_fisher_matrix_diag s g ld = Inr (cur, m, g')" and
    s': "s' = s\<lparr>older_params := snapshot_params (named_parameters (model s)), model := m,
            fisher := fisher s'\<rparr>"
    by (rule post_train_processE)
  have m: "model s' = m"
    by (subst s') simp
  have old: "older_params s' = snapshot_params (named_parameters (model s))"
    by (subst s') simp
  have vals: "values_of (named_parameters (model s')) = values_of (named_parameters (model s))"
    using compute_fisher_values[OF cf] m by simp
  then have snap: "snapshot_params (named_parameters (model s'))
      = snapshot_params (named_parameters (model s))"
    by (simp add: snapshot_params_values)
  have dist: "distinct (map fst (named_parameters (model s')))"
    using assms(2) map_fst_values_of[of "named_parameters (model s')"] vals
    by (simp add: map_fst_values_of)
  have wf: "wf_tensor (pvalue p)" if "(n, p) \<in> set (named_parameters (model s'))" for n p
  proof -
    from that have "(n, pvalue p, requires_grad p) \<in> set (values_of (named_parameters (model s')))"
      by (force simp: values_of_def)
    with vals obtain q where "(n, q) \<in> set (named_parameters (model s))" "pvalue q = pvalue p"
      by (auto simp: values_of_def)
    with assms(3) show ?thesis by (auto simp: list_all_iff)
  qed
  have nd: "no_drift s'"
    unfolding no_drift_def list_all_iff
  proof (intro ballI)
    fix np assume np: "np \<in> set (named_parameters (model s'))"
    obtain n p where eq: "np = (n, p)" by (cases np)
    show "case np of (n, p) \<Rightarrow> \<not> requires_grad p \<or>
                 (case map_of (older_params s') n of
                    None \<Rightarrow> False
                  | Some old \<Rightarrow> tensor_sub (pvalue p) old = Inr (zeros (shape (pvalue p))))"
    proof (cases "requires_grad p")
      case False
      then show ?thesis by (simp add: eq)
    next
      case True
      with np eq dist have "map_of (snapshot_params (named_parameters (model s'))) n = Some (pvalue p)"
        by (intro map_of_snapshot_params) simp_all
      with old snap have "map_of (older_params s') n = Some (pvalue p)" by simp
      moreover have "tensor_sub (pvalue p) (pvalue p) = Inr (zeros (shape (pvalue p)))"
        using wf np eq by (intro tensor_sub_self) simp
      ultimately show ?thesis by (simp add: eq)
    qed
  qed
  have frame: "model s'
      = (model s)\<lparr>named_parameters := named_parameters (model s'), training := True\<rparr>"
    using compute_fisher_frame[OF cf] unfolding m .
  have step: "values_of (named_parameters m1) = values_of (named_parameters m0)
            \<and> buffers_of (named_parameters m1) = batch_gradients m0 images preds
            \<and> accumulate (named_parameters m1) (length targets) fi = Inr fi1"
    if st: "fisher_step st (images, targets) (fi, m0, g0) = Inr (fi1, m1, g1)"
      and pr: "fisher_preds st g0 (forward m0 (named_parameters m0) images) targets
              = Inr (preds, g1')"
  proof -
    from st obtain preds' where
      p': "fisher_preds st g0 (forward m0 (named_parameters m0) images) targets = Inr (preds', g1)"
      and m1: "m1 = m0\<lparr>named_parameters
                 := backward m0 (zero_grad (named_parameters m0)) images preds'\<rparr>"
      and acc: "accumulate (named_parameters m1) (length targets) fi = Inr fi1"
      by (rule fisher_stepE)
    from p' pr have same: "preds' = preds" by simp
    have "buffers_of (named_parameters m1) = batch_gradients m0 images preds"
      by (simp add: m1 same buffers_of_backward batch_gradients_def)
    with fisher_step_values[OF st] acc show ?thesis by simp
  qed
  from vals old snap nd frame step show ?thesis by simp
qed

lemmas ex4_defs = ex_loader3_def ex_loader10_def ex_loader1_def ex_budget_def budget_batches_def

lemma ex_budget_estimate:
  "map_sum id fst (compute_fisher_matrix_diag (ex_budget 7) ex_tape ex_loader3)
       = Inr [(''w1'', evec [3 / 2]), (''w2'', evec [3 / 2])]"
  by (simp add: ex4_defs fisher_defs ex3_defs ex_defs tensor_defs)

lemma ex_stale_step:
  "fisher_step MaxPred ([7], [0]) (zero_fisher (named_parameters ex_net_stale), ex_net_stale, ex_tape)
     = Inr ([(''w1'', evec [4]), (''w2'', evec [4])],
            ex_net_stale\<lparr>named_parameters := [(''w1'', with_grad (vec [1]) (vec [2])),
                                               (''w2'', with_grad (vec [3]) (vec [2]))]\<rparr>,
            ex_tape)"
  by (simp add: ex_net_stale_def fisher_defs ex_defs tensor_defs)

lemma ex_stale_preds:
  "fisher_preds MaxPred ex_tape (forward ex_net_stale (named_parameters ex_net_stale) [7]) [0]
     = Inr ([0], ex_tape)"
  by (simp add: ex_net_stale_def fisher_defs ex_defs)

theorem post_train_no_drift_witness:
  "post_train_process (ex_fuse (1 / 2)) ex_tape 0 ex_loader
     = Inr (ex_fuse_after (1 / 2) 7 2, ex_tape)
   \<and> distinct (map fst (named_parameters (model (ex_fuse (1 / 2)))))
   \<and> list_all (\<lambda>(n, p). wf_tensor (pvalue p)) (named_parameters (model (ex_fuse (1 / 2))))
   \<and> values_of (named_parameters (model (ex_fuse_after (1 / 2) 7 2)))
       = [(''w1'', vec [1], True), (''w2'', vec [3], True)]
   \<and> older_params (ex_fuse_after (1 / 2) 7 2) = [(''w1'', vec [1]), (''w2'', vec [3])]
   \<and> no_drift (ex_fuse_after (1 / 2) 7 2)
   \<and> buffers_of (named_parameters ex_net_stale)
       = [(''w1'', Some (vec [5])), (''w2'', Some (vec [5]))]
   \<and> fisher_step MaxPred ([7], [0])
         (zero_fisher (named_parameters ex_net_stale), ex_net_stale, ex_tape)
       = Inr ([(''w1'', evec [4]), (''w2'', evec [4])],
              ex_net_stale\<lparr>named_parameters := [(''w1'', with_grad (vec [1]) (vec [2])),
                                                 (''w2'', with_grad (vec [3]) (vec [2]))]\<rparr>,
              ex_tape)
   \<and> fisher_preds MaxPred ex_tape (forward ex_net_stale (named_parameters ex_net_stale) [7]) [0]
       = Inr ([0], ex_tape)
   \<and> batch_gradients ex_net_stale [7] [0] = [(''w1'', Some (vec [2])), (''w2'', Some (vec [2]))]
   \<and> buffers_of [(''w1'', with_grad (vec [1]) (vec [2])), (''w2'', with_grad (vec [3]) (vec [2]))]
       = batch_gradients ex_net_stale [7] [0]
   \<and> map_sum id fst (compute_fisher_matrix_diag (ex_budget 7) ex_tape ex_loader3)
       = Inr [(''w1'', evec [3 / 2]), (''w2'', evec [3 / 2])]"
proof -
  have d: "distinct (map fst (named_parameters (model (ex_fuse (1 / 2)))))"
    by (simp add: ex_defs)
  have w: "list_all (\<lambda>(n, p). wf_tensor (pvalue p)) (named_parameters (model (ex_fuse (1 / 2))))"
    by (simp add: ex_defs wf_tensor_def numel_def)
  note inst = post_train_no_drift[OF ex_fuse_post_half d w,
      where st = MaxPred and images = "[7]" and targets = "[0]"
        and fi = "zero_fisher (named_parameters ex_net_stale)" and ?m0.0 = ex_net_stale
        and ?g0.0 = ex_tape and ?fi1.0 = "[(''w1'', evec [4]), (''w2'', evec [4])]"
        and ?m1.0 = "ex_net_stale\<lparr>named_parameters := [(''w1'', with_grad (vec [1]) (vec [2])),
                                                 (''w2'', with_grad (vec [3]) (vec [2]))]\<rparr>"
        and ?g1.0 = ex_tape and preds = "[0]" and g1' = ex_tape]
  have a: "values_of (named_parameters (model (ex_fuse_after (1 / 2) 7 2)))
       = [(''w1'', vec [1], True), (''w2'', vec [3], True)]"
    using inst[THEN conjunct1] by (simp add: ex_defs values_of_def)
  have b: "older_params (ex_fuse_after (1 / 2) 7 2) = [(''w1'', vec [1]), (''w2'', vec [3])]"
    by (simp add: ex_defs)
  have c: "no_drift (ex_fuse_after (1 / 2) 7 2)"
    using inst[THEN conjunct2, THEN conjunct2, THEN conjunct1] .
  have e: "buffers_of [(''w1'', with_grad (vec [1]) (vec [2])), (''w2'', with_grad (vec [3]) (vec [2]))]
       = batch_gradients ex_net_stale [7] [0]"
    using inst[THEN conjunct2, THEN conjunct2, THEN conjunct2, THEN conjunct2]
      ex_stale_step ex_stale_preds by simp
  have f: "batch_gradients ex_net_stale [7] [0]
      = [(''w1'', Some (vec [2])), (''w2'', Some (vec [2]))]"
    by (simp add: batch_gradients_def ex_net_stale_def ex_defs)
  have h: "buffers_of (named_parameters ex_net_stale)
       = [(''w1'', Some (vec [5])), (''w2'', Some (vec [5]))]"
    by (simp add: buffers_of_def ex_net_stale_def ex_defs)
  from a b c d w e f h ex_fuse_post_half ex_stale_step ex_stale_preds ex_budget_estimate
  show ?thesis by simp
qed


subsection \<open>Non-negativity of the Importance Map\<close>

lemma eadd_nonneg: "nonneg_elem x \<Longrightarrow> nonneg_elem y \<Longrightarrow> nonneg_elem (eadd x y)"
  by (cases x; cases y) simp_all

lemma emul_nonneg: "0 \<le> c \<Longrightarrow> nonneg_elem x \<Longrightarrow> nonneg_elem (emul (Fin c) x)"
  by (cases x) simp_all

lemma ediv_nonneg: "0 < c \<Longrightarrow> nonneg_elem x \<Longrightarrow> nonneg_elem (ediv x c)"
  by (cases x) simp_all

lemma tensor_add_nonneg:
  assumes "nonneg_tensor a" and "nonneg_tensor b" and "tensor_add a b = Inr c"
  shows "nonneg_tensor c"
proof -
  from assms(3) obtain s where
    c: "data c = map2 eadd (expand (pad_shape (length s) (shape a)) s (data a))
                           (expand (pad_shape (length s) (shape b)) s (data b))"
    by (auto simp: tensor_add_def tensor_op_def split: option.splits)
  have "nonneg_elem (eadd x y)"
    if "(x, y) \<in> set (zip (expand (pad_shape (length s) (shape a)) s (data a))
                          (expand (pad_shape (length s) (shape b)) s (data b)))" for x y
  proof -
    from that have "x \<in> set (expand (pad_shape (length s) (shape a)) s (data a))"
      and "y \<in> set (expand (pad_shape (length s) (shape b)) s (data b))"
      by (auto dest: set_zip_leftD set_zip_rightD)
    then have "x \<in> set (data a)" "y \<in> set (data b)"
      using set_expand[of "pad_shape (length s) (shape a)" s "data a"]
        set_expand[of "pad_shape (length s) (shape b)" s "data b"] by auto
    with assms(1,2) show ?thesis by (simp add: nonneg_tensor_def list_all_iff eadd_nonneg)
  qed
  then show ?thesis
    by (auto simp: nonneg_tensor_def list_all_iff c)
qed

lemma tensor_iadd_nonneg:
  "nonneg_tensor a \<Longrightarrow> nonneg_tensor b \<Longrightarrow> tensor_iadd a b = Inr c \<Longrightarrow> nonneg_tensor c"
proof -
  assume a: "nonneg_tensor a" and b: "nonneg_tensor b" and r: "tensor_iadd a b = Inr c"
  from r have "tensor_add a b = Inr c"
    by (simp add: tensor_iadd_def split: sum.splits if_splits)
  with a b show ?thesis by (rule tensor_add_nonneg)
qed

lemma squared_gradient_nonneg:
  "nonneg_tensor (fin_tensor (tensor_times (tensor_pow2 g) (real k)))"
  by (simp add: nonneg_tensor_def fin_tensor_def tensor_times_def tensor_pow2_def
      tensor_map_def list_all_iff)

lemma tensor_scale_nonneg: "0 \<le> c \<Longrightarrow> nonneg_tensor a \<Longrightarrow> nonneg_tensor (tensor_scale c a)"
  by (simp add: nonneg_tensor_def tensor_scale_def tensor_map_def list_all_iff emul_nonneg)

lemma tensor_div_nonneg: "0 < c \<Longrightarrow> nonneg_tensor a \<Longrightarrow> nonneg_tensor (tensor_div a c)"
  by (simp add: nonneg_tensor_def tensor_div_def tensor_map_def list_all_iff ediv_nonneg)

lemma nonneg_map_lookup: "nonneg_map d \<Longrightarrow> map_of d n = Some a \<Longrightarrow> nonneg_tensor a"
  by (auto simp: nonneg_map_def list_all_iff dest: map_of_SomeD)

lemma nonneg_map_update:
  "nonneg_map d \<Longrightarrow> nonneg_tensor v \<Longrightarrow> nonneg_map (AList.update n v d)"
  by (induction d) (auto simp: nonneg_map_def)

lemma nonneg_zero_fisher: "nonneg_map (zero_fisher ps)"
  by (auto simp: nonneg_map_def zero_fisher_def zeros_def zero_elem_def nonneg_tensor_def
      list_all_iff)

lemma accumulate_nonneg:
  "nonneg_map fi \<Longrightarrow> accumulate ps k fi = Inr fi' \<Longrightarrow> nonneg_map fi'"
proof (induction ps arbitrary: fi)
  case Nil
  then show ?case by simp
next
  case (Cons np ps)
  obtain n p where np: "np = (n, p)" by (cases np)
  show ?case
  proof (cases "grad p")
    case None
    with Cons np show ?thesis by simp
  next
    case (Some gr)
    with Cons.prems(2) np obtain f f' where
      f: "map_of fi n = Some f" and
      add: "tensor_iadd f (fin_tensor (tensor_times (tensor_pow2 gr) (real k))) = Inr f'" and
      rest: "accumulate ps k (AList.update n f' fi) = Inr fi'"
      by (auto split: option.splits sum.splits)
    have "nonneg_tensor f" using Cons.prems(1) f by (rule nonneg_map_lookup)
    then have "nonneg_tensor f'" using squared_gradient_nonneg add by (rule tensor_iadd_nonneg)
    with Cons.prems(1) have "nonneg_map (AList.update n f' fi)" by (rule nonneg_map_update)
    then show ?thesis using rest by (rule Cons.IH)
  qed
qed

lemma fisher_step_nonneg:
  assumes "nonneg_map fi" and "fisher_step st b (fi, m, g) = Inr (fi', m', g')"
  shows "nonneg_map fi'"
proof -
  obtain images targets where b: "b = (images, targets)" by (cases b)
  from assms(2) obtain ps where "accumulate ps (length targets) fi = Inr fi'"
    by (auto simp: fisher_step_def b Let_def split: sum.splits prod.splits)
  with assms(1) show ?thesis by (rule accumulate_nonneg)
qed

lemma fisher_loop_nonneg:
  "nonneg_map fi \<Longrightarrow> fisher_loop st bs (fi, m, g) = Inr (fi', m', g') \<Longrightarrow> nonneg_map fi'"
proof (induction bs arbitrary: fi m g)
  case Nil
  then show ?case by simp
next
  case (Cons b bs)
  from Cons.prems(2) obtain fi1 m1 g1 where
    step: "fisher_step st b (fi, m, g) = Inr (fi1, m1, g1)" and
    rest: "fisher_loop st bs (fi1, m1, g1) = Inr (fi', m', g')"
    by (auto split: sum.splits)
  from Cons.prems(1) step have "nonneg_map fi1" by (rule fisher_step_nonneg)
  then show ?case using rest by (rule Cons.IH)
qed

lemma n_samples_batches_nonneg: "n_samples_batches n ld = Inr nb \<Longrightarrow> 0 \<le> nb"
  by (auto simp: n_samples_batches_def pos_imp_zdiv_nonneg_iff split: if_splits)

lemma fisher_mean_nonneg:
  assumes "nonneg_map fi" and "0 < c"
  shows "nonneg_map (fisher_mean fi c)"
  using assms by (auto simp: fisher_mean_def nonneg_map_def list_all_iff tensor_div_nonneg)

lemma compute_fisher_nonneg:
  assumes "compute_fisher_matrix_diag s g ld = Inr (cur, m, g')"
    and "0 < budget_batches (num_samples s) ld"
  shows "nonneg_map cur"
proof -
  from assms(1) obtain nb bs fi where
    nb: "n_samples_batches (num_samples s) ld = Inr nb" and
    loop: "fisher_loop (sampling_type s) bs
       (zero_fisher (named_parameters (model s)), (model s)\<lparr>training := True\<rparr>, g)
     = Inr (fi, m, g')" and
    mean: "cur = fisher_mean fi (nb * int (batch_size ld))"
    by (auto simp: compute_fisher_matrix_diag_def Let_def split: sum.splits prod.splits)
  from nb have bs: "0 < batch_size ld" and "nb = budget_batches (num_samples s) ld"
    by (auto simp: n_samples_batches_def budget_batches_def split: if_splits)
  with assms(2) have "0 < nb * int (batch_size ld)" by simp
  moreover from nonneg_zero_fisher loop have "nonneg_map fi" by (rule fisher_loop_nonneg)
  ultimately show ?thesis unfolding mean by (intro fisher_mean_nonneg)
qed

lemma fuse_nonneg:
  assumes "0 \<le> w" and "w \<le> 1" and "nonneg_tensor old" and "nonneg_tensor new"
    and "fuse w old new = Inr v"
  shows "nonneg_tensor v"
proof -
  have "nonneg_tensor (tensor_scale w old)" "nonneg_tensor (tensor_scale (1 - w) new)"
    using assms(1-4) by (simp_all add: tensor_scale_nonneg)
  then show ?thesis using assms(5) unfolding fuse_def by (rule tensor_add_nonneg)
qed

lemma sum_list_take_le: "sum_list (take t xs) \<le> sum_list xs" for xs :: "nat list"
proof -
  have "sum_list xs = sum_list (take t xs) + sum_list (drop t xs)"
    by (metis append_take_drop_id sum_list_append)
  then show ?thesis by simp
qed

lemma fusion_weight_range:
  assumes "0 \<le> a \<and> a \<le> 1 \<or> a = - 1" and "fusion_weight a t cls = Inr w"
  shows "0 \<le> w \<and> w \<le> 1"
proof (cases "a = - 1")
  case True
  with assms(2) have w: "w = real (sum_list (take t cls)) / real (sum_list cls)"
    and "sum_list cls \<noteq> 0"
    by (simp_all add: fusion_weight_def class_alpha_def del: sum_list_eq_0_iff split: if_splits)
  then have pos: "0 < sum_list cls" by (simp del: sum_list_eq_0_iff)
  have "real (sum_list (take t cls)) \<le> real (sum_list cls)"
    using sum_list_take_le[of t cls] by simp
  with pos show ?thesis by (simp add: w)
next
  case False
  with assms show ?thesis by (simp add: fusion_weight_def)
qed

lemma merge_loop_nonneg:
  assumes "0 \<le> a \<and> a \<le> 1 \<or> a = - 1" and "nonneg_map cur"
  shows "nonneg_map fi \<Longrightarrow> merge_loop a t cls cur ns fi = Inr fi' \<Longrightarrow> nonneg_map fi'"
proof (induction ns arbitrary: fi)
  case Nil
  then show ?case by simp
next
  case (Cons n ns)
  from Cons.prems(2) obtain w old new v where step:
    "fusion_weight a t cls = Inr w" "map_of fi n = Some old" "map_of cur n = Some new"
    "fuse w old new = Inr v" "merge_loop a t cls cur ns (AList.update n v fi) = Inr fi'"
    by (rule merge_loop_ConsE)
  from fusion_weight_range[OF assms(1) step(1)] have w: "0 \<le> w" "w \<le> 1" by simp_all
  have old: "nonneg_tensor old" using Cons.prems(1) step(2) by (rule nonneg_map_lookup)
  have new: "nonneg_tensor new" using assms(2) step(3) by (rule nonneg_map_lookup)
  have "nonneg_tensor v" by (rule fuse_nonneg[OF w old new step(4)])
  with Cons.prems(1) have "nonneg_map (AList.update n v fi)" by (rule nonneg_map_update)
  then show ?case using step(5) by (rule Cons.IH)
qed

text \<open>
  Where the estimator is asked for at least one batch, the Importance Map stays finite
  and non-negative: it is so after construction, a fresh estimate is so, and post-task
  processing with \<open>alpha\<close> in \<open>[0, 1]\<close> or equal to -1 keeps it so.
\<close>

lemma importance_nonneg_counted:
  "nonneg_map (fisher (init m0 l a st k e))
   \<and> (compute_fisher_matrix_diag s g ld = Inr (cur, m, g'') \<longrightarrow>
        0 < budget_batches (num_samples s) ld \<longrightarrow> nonneg_map cur)
   \<and> (nonneg_map (fisher s) \<longrightarrow> (0 \<le> alpha s \<and> alpha s \<le> 1 \<or> alpha s = - 1) \<longrightarrow>
        0 < budget_batches (num_samples s) ld \<longrightarrow>
        post_train_process s g t ld = Inr (s', g') \<longrightarrow> nonneg_map (fisher s'))"
proof (intro conjI impI)
  show "nonneg_map (fisher (init m0 l a st k e))"
    by (simp add: init_def nonneg_zero_fisher)
  show "nonneg_map cur"
    if "compute_fisher_matrix_diag s g ld = Inr (cur, m, g'')"
      "0 < budget_batches (num_samples s) ld"
    using that by (rule compute_fisher_nonneg)
next
  assume inv: "nonneg_map (fisher s)"
    and al: "0 \<le> alpha s \<and> alpha s \<le> 1 \<or> alpha s = - 1"
    and cnt: "0 < budget_batches (num_samples s) ld"
    and post: "post_train_process s g t ld = Inr (s', g')"
  from post obtain cur' m' where
    cf: "compute_fisher_matrix_diag s g ld = Inr (cur', m', g')" and
    ml: "merge_loop (alpha s) t (task_cls m') cur' (map fst (fisher s)) (fisher s) = Inr (fisher s')"
    by (rule post_train_processE)
  from cf cnt have "nonneg_map cur'" by (rule compute_fisher_nonneg)
  from merge_loop_nonneg[OF al this inv ml] show "nonneg_map (fisher s')" .
qed





subsection \<open>The batches of the Fisher estimation\<close>

lemma compute_fisherE:
  assumes "compute_fisher_matrix_diag s g ld = Inr (cur, m, g')"
  obtains nb bs fi where
    "n_samples_batches (num_samples s) ld = Inr nb" "islice (batches ld) nb = Inr bs"
    "fisher_loop (sampling_type s) bs
       (zero_fisher (named_parameters (model s)), (model s)\<lparr>training := True\<rparr>, g)
     = Inr (fi, m, g')"
    "cur = fisher_mean fi (nb * int (batch_size ld))"
  using assms
  by (auto simp: compute_fisher_matrix_diag_def Let_def split: sum.splits prod.splits)

lemma n_samples_batches_budget:
  "0 < batch_size ld \<Longrightarrow> n_samples_batches n ld = Inr (budget_batches n ld)"
  by (simp add: n_samples_batches_def budget_batches_def)

lemma budget_batches_nonneg: "0 < batch_size ld \<Longrightarrow> 0 \<le> budget_batches n ld"
  by (rule n_samples_batches_nonneg[OF n_samples_batches_budget])

lemma budget_batches_three:
  assumes "1 < batch_size ld"
  shows "budget_batches (int (batch_size ld) * 3 + 1) ld = 4"
proof -
  let ?b = "int (batch_size ld)"
  have b: "1 < ?b" using assms by simp
  have "(1 + ?b * 3) div ?b = 3 + 1 div ?b"
    using b by (subst div_mult_self2) simp_all
  moreover have "1 div ?b = 0"
    using b by (simp add: div_pos_pos_trivial)
  ultimately have "(1 + ?b * 3) div ?b = 3" by simp
  then have "(?b * 3 + 1) div ?b = 3" by (simp only: add.commute)
  with b show ?thesis by (simp add: budget_batches_def)
qed

lemma budget_batches_all:
  assumes "0 < batch_size ld" and "n \<le> 0" and "dataset_len ld = k * batch_size ld"
  shows "budget_batches n ld = int k"
  using assms by (simp add: budget_batches_def)

lemma consumed_batches_budget:
  assumes "0 < batch_size ld"
  shows "consumed_batches n ld
    = (if maxsize < budget_batches n ld then Inl ValueError
       else Inr (take (nat (budget_batches n ld)) (batches ld)))"
  using assms budget_batches_nonneg[OF assms, of n]
  by (simp add: consumed_batches_def n_samples_batches_budget islice_def)

text \<open>
  Claim C4, as amended. With a positive batch size the estimator iterates over the first
  \<open>n\<close> batches that the loader yields, where \<open>n\<close> is \<open>floor(budget / batch_size) + 1\<close> for a
  positive budget and \<open>floor(len(dataset) / batch_size)\<close> otherwise (\<open>islice\<close> refuses an
  \<open>n\<close> above \<open>sys.maxsize\<close>): it consumes the smaller of \<open>n\<close> and the number of batches
  of the loader. That is exactly 4 batches for the budget \<open>batch_size * 3 + 1\<close> when the
  batch size is at least 2 and the loader has at least 4 batches, and all \<open>N\<close> batches of
  the loader for a non-positive budget when the dataset holds \<open>N\<close> full batches. When the
  loader yields at least \<open>n\<close> batches, the accumulated squared gradients are divided by
  the number of batches consumed times the batch size.
\<close>

theorem fisher_batch_budget:
  assumes "0 < batch_size ld"
  shows "consumed_batches n ld
           = (if maxsize < budget_batches n ld then Inl ValueError
              else Inr (take (nat (budget_batches n ld)) (batches ld)))
       \<and> length (take (nat (budget_batches n ld)) (batches ld))
           = min (nat (budget_batches n ld)) (length (batches ld))
       \<and> (1 < batch_size ld \<longrightarrow> 4 \<le> length (batches ld) \<longrightarrow>
            consumed_batches (int (batch_size ld) * 3 + 1) ld = Inr (take 4 (batches ld))
            \<and> length (take 4 (batches ld)) = 4)
       \<and> (n \<le> 0 \<longrightarrow> dataset_len ld = length (batches ld) * batch_size ld \<longrightarrow>
            int (length (batches ld)) \<le> maxsize \<longrightarrow>
            consumed_batches n ld = Inr (batches ld))
       \<and> (compute_fisher_matrix_diag s g ld = Inr (cur, m, g') \<longrightarrow>
            consumed_batches (num_samples s) ld
              = Inr (take (nat (budget_batches (num_samples s) ld)) (batches ld))
            \<and> (\<exists>acc. fisher_loop (sampling_type s)
                      (take (nat (budget_batches (num_samples s) ld)) (batches ld))
                      (zero_fisher (named_parameters (model s)), (model s)\<lparr>training := True\<rparr>, g)
                    = Inr (acc, m, g')
                 \<and> (budget_batches (num_samples s) ld \<le> int (length (batches ld)) \<longrightarrow>
                      cur = map (\<lambda>(k, v). (k, tensor_div v
                              (real (length (take (nat (budget_batches (num_samples s) ld))
                                               (batches ld))
                                     * batch_size ld))))
                            acc)))"
proof (intro conjI impI)
  have nn: "0 \<le> budget_batches k ld" for k
    using assms by (rule budget_batches_nonneg)
  show c: "consumed_batches n ld
           = (if maxsize < budget_batches n ld then Inl ValueError
              else Inr (take (nat (budget_batches n ld)) (batches ld)))"
    using assms by (rule consumed_batches_budget)
  show "length (take (nat (budget_batches n ld)) (batches ld))
           = min (nat (budget_batches n ld)) (length (batches ld))"
    by simp
  show "consumed_batches (int (batch_size ld) * 3 + 1) ld = Inr (take 4 (batches ld))"
    if "1 < batch_size ld"
    using that by (simp add: consumed_batches_budget[OF assms] budget_batches_three maxsize_def)
  show "length (take 4 (batches ld)) = 4" if "4 \<le> length (batches ld)"
    using that by simp
  show "consumed_batches n ld = Inr (batches ld)"
    if "n \<le> 0" "dataset_len ld = length (batches ld) * batch_size ld"
      "int (length (batches ld)) \<le> maxsize"
    using c budget_batches_all[OF assms that(1,2)] that(3) by simp
  assume run: "compute_fisher_matrix_diag s g ld = Inr (cur, m, g')"
  from run obtain nb bs fi where
    nb: "n_samples_batches (num_samples s) ld = Inr nb" and
    bs: "islice (batches ld) nb = Inr bs" and
    loop: "fisher_loop (sampling_type s) bs
       (zero_fisher (named_parameters (model s)), (model s)\<lparr>training := True\<rparr>, g)
     = Inr (fi, m, g')" and
    mean: "cur = fisher_mean fi (nb * int (batch_size ld))"
    by (rule compute_fisherE)
  from nb assms have nb': "nb = budget_batches (num_samples s) ld"
    by (simp add: n_samples_batches_budget)
  from bs have bs': "bs = take (nat nb) (batches ld)" and le: "nb \<le> maxsize"
    by (simp_all add: islice_def split: if_splits)
  show "consumed_batches (num_samples s) ld
      = Inr (take (nat (budget_batches (num_samples s) ld)) (batches ld))"
    using le by (simp add: consumed_batches_budget[OF assms] nb')
  have "cur = map (\<lambda>(k, v). (k, tensor_div v
                (real (length (take (nat nb) (batches ld)) * batch_size ld)))) fi"
    if "nb \<le> int (length (batches ld))"
  proof -
    have "0 \<le> nb" using nn[of "num_samples s"] by (simp add: nb')
    with that have "length (take (nat nb) (batches ld)) = nat nb" by simp
    then have "real (length (take (nat nb) (batches ld)) * batch_size ld)
        = real_of_int (nb * int (batch_size ld))"
      using \<open>0 \<le> nb\<close> by simp
    then show ?thesis by (simp only: mean fisher_mean_def)
  qed
  with loop show "\<exists>acc. fisher_loop (sampling_type s)
                      (take (nat (budget_batches (num_samples s) ld)) (batches ld))
                      (zero_fisher (named_parameters (model s)), (model s)\<lparr>training := True\<rparr>, g)
                    = Inr (acc, m, g')
                 \<and> (budget_batches (num_samples s) ld \<le> int (length (batches ld)) \<longrightarrow>
                      cur = map (\<lambda>(k, v). (k, tensor_div v
                              (real (length (take (nat (budget_batches (num_samples s) ld))
                                               (batches ld))
                                     * batch_size ld))))
                            acc)"
    unfolding bs' nb' by blast
qed

theorem fisher_batch_budget_witness:
  "0 < batch_size ex_loader10 \<and> 1 < batch_size ex_loader10
   \<and> 4 \<le> length (batches ex_loader10)
   \<and> consumed_batches (int (batch_size ex_loader10) * 3 + 1) ex_loader10
       = Inr [([0, 1], [0, 1]), ([2, 3], [0, 1]), ([4, 5], [0, 1]), ([6, 7], [0, 1])]
   \<and> dataset_len ex_loader10 = length (batches ex_loader10) * batch_size ex_loader10
   \<and> int (length (batches ex_loader10)) \<le> maxsize
   \<and> consumed_batches (- 1) ex_loader10 = Inr (batches ex_loader10)
   \<and> length (batches ex_loader10) = 5
   \<and> 0 < batch_size ex_loader
   \<and> compute_fisher_matrix_diag ex_init ex_tape ex_loader
       = Inr ([(''w1'', evec [4]), (''w2'', evec [4])], ex_net_after, ex_tape)
   \<and> budget_batches (num_samples ex_init) ex_loader \<le> int (length (batches ex_loader))
   \<and> consumed_batches (num_samples ex_init) ex_loader = Inr [([7], [0])]
   \<and> real (length (take (nat (budget_batches (num_samples ex_init) ex_loader))
                     (batches ex_loader)) * batch_size ex_loader) = 1"
proof -
  have pos: "0 < batch_size ex_loader10" "1 < batch_size ex_loader10"
    "4 \<le> length (batches ex_loader10)"
    "dataset_len ex_loader10 = length (batches ex_loader10) * batch_size ex_loader10"
    "int (length (batches ex_loader10)) \<le> maxsize" "length (batches ex_loader10) = 5"
    by (simp_all add: ex4_defs maxsize_def)
  have pos1: "0 < batch_size ex_loader"
    "budget_batches (num_samples ex_init) ex_loader \<le> int (length (batches ex_loader))"
    by (simp_all add: ex4_defs ex3_defs ex_defs)
  have a: "consumed_batches (int (batch_size ex_loader10) * 3 + 1) ex_loader10
       = Inr [([0, 1], [0, 1]), ([2, 3], [0, 1]), ([4, 5], [0, 1]), ([6, 7], [0, 1])]"
    using fisher_batch_budget[OF pos(1), of "- 1", THEN conjunct2, THEN conjunct2,
        THEN conjunct1] pos(2,3)
    by (simp add: ex4_defs)
  have b: "consumed_batches (- 1) ex_loader10 = Inr (batches ex_loader10)"
    using fisher_batch_budget[OF pos(1), of "- 1", THEN conjunct2, THEN conjunct2,
        THEN conjunct2, THEN conjunct1] pos(4,5)
    by simp
  have c: "consumed_batches (num_samples ex_init) ex_loader = Inr [([7], [0])]"
    using fisher_batch_budget[OF pos1(1), of _ ex_init ex_tape
        "[(''w1'', evec [4]), (''w2'', evec [4])]" ex_net_after ex_tape,
        THEN conjunct2, THEN conjunct2, THEN conjunct2, THEN conjunct2] ex_init_estimate
    by (simp add: ex4_defs ex3_defs ex_defs)
  have d: "real (length (take (nat (budget_batches (num_samples ex_init) ex_loader))
                     (batches ex_loader)) * batch_size ex_loader) = 1"
    by (simp add: ex4_defs ex3_defs ex_defs)
  show ?thesis
    by (intro conjI pos pos1 a b c d ex_init_estimate)
qed

theorem fisher_skips_partial_batch:
  "length (batches ex_loader3) = 2
   \<and> consumed_batches (- 1) ex_loader3 = Inr [([0, 1], [0, 1])]
   \<and> consumed_batches 7 ex_loader3 = Inr [([0, 1], [0, 1]), ([2], [0])]
   \<and> map_sum id fst (compute_fisher_matrix_diag (ex_budget 7) ex_tape ex_loader3)
       = Inr [(''w1'', evec [3 / 2]), (''w2'', evec [3 / 2])]"
proof -
  have "length (batches ex_loader3) = 2" by (simp add: ex4_defs)
  moreover have "consumed_batches (- 1) ex_loader3 = Inr [([0, 1], [0, 1])]"
    by (simp add: consumed_batches_def n_samples_batches_def islice_def maxsize_def ex4_defs)
  moreover have "consumed_batches 7 ex_loader3 = Inr [([0, 1], [0, 1]), ([2], [0])]"
    by (simp add: consumed_batches_def n_samples_batches_def islice_def maxsize_def ex4_defs)
  ultimately show ?thesis using ex_budget_estimate by simp
qed


subsection \<open>Pseudo-labels of the \<open>multinomial\<close> policy\<close>

lemma length_concat_const:
  "list_all (\<lambda>xs. length xs = k) xss \<Longrightarrow> length (concat xss) = length xss * k"
  by (induction xss) simp_all

lemma multinomial_count:
  assumes "multinomial g probs k = Inr (draws, g')"
  shows "length (concat draws) = length probs * k"
proof -
  from assms have "draws = map (\<lambda>i. map (\<lambda>j. int (g (i * k + j))) [0..<k]) [0..<length probs]"
    by (simp add: multinomial_def split: if_splits)
  then have "list_all (\<lambda>xs. length xs = k) draws" "length draws = length probs"
    by (simp_all add: list_all_iff)
  then show ?thesis using length_concat_const[of k draws] by simp
qed

lemma fisher_preds_multinomial_count:
  assumes "fisher_preds Multinomial g outputs targets = Inr (preds, g')"
    and "cat_dim1 outputs = Inr joined"
  shows "length preds = length joined * length targets"
proof -
  from assms obtain draws where
    "multinomial g (map softmax joined) (length targets) = Inr (draws, g')" "preds = concat draws"
    by (auto simp: fisher_preds_def split: sum.splits prod.splits)
  with multinomial_count[OF this(1)] show ?thesis by simp
qed

text \<open>
  Claim C9 on a batch of two examples: the \<open>multinomial\<close> policy draws two pseudo-labels
  for each of the two examples, four in all, and the cross-entropy of the two rows of
  logits against four labels raises.
\<close>

theorem multinomial_batch_of_two:
  "map_sum id fst
     (fisher_preds Multinomial ex_tape
        (forward (model ex_multi) (named_parameters (model ex_multi)) [0, 1]) [0, 1])
     = Inr [0, 1, 2, 3]
   \<and> compute_fisher_matrix_diag ex_multi ex_tape ex_loader2 = Inl ValueError"
proof -
  have "map_sum id fst
     (fisher_preds Multinomial ex_tape
        (forward (model ex_multi) (named_parameters (model ex_multi)) [0, 1]) [0, 1])
     = Inr [0, 1, 2, 3]"
    by (simp add: ex_multi_def ex3_defs ex_defs fisher_preds_def cat_dim1_def multinomial_def
        softmax_def)
  moreover have "compute_fisher_matrix_diag ex_multi ex_tape ex_loader2 = Inl ValueError"
    by (simp add: ex_multi_def ex_loader2_def ex3_defs ex_defs fisher_defs multinomial_def
        softmax_def)
  ultimately show ?thesis by simp
qed


end
